theory Spec2Isabelle
  imports Main "HOL-Library.Sublist"
begin

section \<open>JavaScript strings and values\<close>

text \<open>
  Strings are lists of characters; a \<^typ>\<open>char\<close> stands for a code point below 256.
  The helpers follow the ECMAScript methods the sources call: \<open>String.prototype.trim\<close>,
  \<open>includes\<close>, \<open>split\<close> with a one-character separator, \<open>Array.prototype.join\<close>
  and the conversion of an integer to its decimal text in a template literal.
\<close>

definition newline :: char where
  "newline = CHR 0x0A"

definition backslash :: char where
  "backslash = CHR 0x5C"

definition js_whitespace :: "char \<Rightarrow> bool" where
  "js_whitespace c = (c \<in> set [CHR 0x09, CHR 0x0A, CHR 0x0B, CHR 0x0C, CHR 0x0D, CHR 0x20, CHR 0xA0])"

definition js_trim :: "string \<Rightarrow> string" where
  "js_trim s = rev (dropWhile js_whitespace (rev (dropWhile js_whitespace s)))"

fun js_includes :: "string \<Rightarrow> string \<Rightarrow> bool" where
  "js_includes [] sub = (sub = [])"
| "js_includes (c # cs) sub = (prefix sub (c # cs) \<or> js_includes cs sub)"

fun js_join :: "string \<Rightarrow> string list \<Rightarrow> string" where
  "js_join sep [] = []"
| "js_join sep [x] = x"
| "js_join sep (x # y # ys) = x @ sep @ js_join sep (y # ys)"

fun js_split :: "char \<Rightarrow> string \<Rightarrow> string list" where
  "js_split sep [] = [[]]"
| "js_split sep (c # cs) =
     (if c = sep then [] # js_split sep cs
      else (c # hd (js_split sep cs)) # tl (js_split sep cs))"

definition decimal_digits :: string where
  "decimal_digits = ''0123456789''"

fun show_nat :: "nat \<Rightarrow> string" where
  "show_nat n =
     (if n < 10 then [decimal_digits ! n]
      else show_nat (n div 10) @ [decimal_digits ! (n mod 10)])"

declare show_nat.simps [simp del]

definition show_int :: "int \<Rightarrow> string" where
  "show_int i = (if i < 0 then ''-'' @ show_nat (nat (- i)) else show_nat (nat i))"

text \<open>An exit code as Node passes it to the \<open>close\<close> handler: a number, or \<open>null\<close>
  when the child was ended by a signal.\<close>

fun show_code :: "int option \<Rightarrow> string" where
  "show_code None = ''null''"
| "show_code (Some n) = show_int n"

text \<open>
  Thrown values. \<open>ProcessError\<close> is the class of \<open>utils/errors\<close>, built from a message
  only; \<open>TypeError\<close> is the engine's own error for a call of something that is not a
  function.
\<close>

datatype js_error = ProcessError string | TypeError string | Error string

fun message :: "js_error \<Rightarrow> string" where
  "message (ProcessError m) = m"
| "message (TypeError m) = m"
| "message (Error m) = m"

section \<open>The process adapter (\<open>src/src/adapters/process.js\<close>)\<close>

text \<open>
  The operating system is a parameter. A call of \<open>cross-spawn\<close> hands the command, its
  arguments and the stdio mode to the function \<open>spawn\<close> of the environment, which answers
  with what the child emits: an \<open>error\<close> event, or data chunks followed by a \<open>close\<close>
  event with the exit code. The world \<^typ>\<open>'w\<close> is whatever the commands change.
  Everything the adapter does to the outside (the commands it spawns, the lines it hands
  to the logger) is appended to a trace; the orchestrator below appends its own events
  to the same trace. The platform, the user id and whether stdin is a terminal are fixed
  for a run and are fields of the environment.
\<close>

datatype stdio = Pipe | Inherit

datatype child_event = StdoutData string | StderrData string

datatype child_outcome =
    ErrorEvent string
  | CloseEvent "child_event list" "int option"

datatype level = Debug | Warn

datatype executor = LinuxExecutor | WindowsExecutor | CommonExecutor

datatype stage_fn = InstallSSH | ConfigureSSH | SetupAuthorizedKeys | StartSSH

record execution_result =
  installed :: bool
  configured :: bool
  keysSetup :: bool
  serviceStarted :: bool
  steps :: "string list"
  success :: "bool option"

datatype event =
    Spawn string "string list" stdio
  | Log level string
  | Await execution_result
  | StageCall executor stage_fn
  | StageReturn executor stage_fn
  | StageThrow executor stage_fn

record 'w env =
  platform :: string
  getuid :: "nat option"
  isTTY :: bool
  processErrorCode :: "string option"
  spawn :: "string \<Rightarrow> string list \<Rightarrow> stdio \<Rightarrow> 'w \<Rightarrow> child_outcome \<times> 'w"
  stage :: "executor \<Rightarrow> stage_fn \<Rightarrow> 'w \<Rightarrow> (js_error + unit) \<times> 'w"

record 'w state =
  world :: 'w
  trace :: "event list"

record options =
  logger :: bool
  captureOutput :: bool
  warnOnStderr :: bool
  verbose :: bool

record command_result =
  stdout :: string
  stderr :: string
  code :: "int option"

text \<open>The defaults of the destructuring in \<open>spawnAsync\<close>, and the two option objects
  its callers pass: \<open>{ logger }\<close> and \<open>{ logger, captureOutput: false }\<close>.\<close>

definition default_options :: options where
  "default_options = \<lparr>logger = False, captureOutput = True, warnOnStderr = True, verbose = False\<rparr>"

definition with_logger :: options where
  "with_logger = default_options\<lparr>logger := True\<rparr>"

definition uncaptured :: options where
  "uncaptured = default_options\<lparr>logger := True, captureOutput := False\<rparr>"

definition log :: "level \<Rightarrow> string \<Rightarrow> 'w state \<Rightarrow> 'w state" where
  "log l m s = s\<lparr>trace := trace s @ [Log l m]\<rparr>"

text \<open>The \<open>data\<close> handlers: with \<open>captureOutput\<close> each chunk is added to its buffer and,
  under \<open>verbose\<close>, logged trimmed; without it the child has no streams to listen to.\<close>

fun deliver :: "options \<Rightarrow> child_event list \<Rightarrow> string \<times> string \<times> 'w state \<Rightarrow> string \<times> string \<times> 'w state" where
  "deliver opts [] acc = acc"
| "deliver opts (StdoutData chunk # es) (out, err, s) =
     (if captureOutput opts
      then deliver opts es
             (out @ chunk, err,
              if logger opts \<and> verbose opts then log Debug (''[stdout] '' @ js_trim chunk) s else s)
      else deliver opts es (out, err, s))"
| "deliver opts (StderrData chunk # es) (out, err, s) =
     (if captureOutput opts
      then deliver opts es
             (out, err @ chunk,
              if logger opts \<and> verbose opts then log Debug (''[stderr] '' @ js_trim chunk) s else s)
      else deliver opts es (out, err, s))"

definition stdio_of :: "options \<Rightarrow> stdio" where
  "stdio_of opts = (if captureOutput opts then Pipe else Inherit)"

text \<open>The handler of the child's \<open>close\<close> event, run on the buffers the \<open>data\<close>
  handlers have filled.\<close>

definition on_close ::
  "options \<Rightarrow> string \<Rightarrow> string list \<Rightarrow> int option \<Rightarrow> string \<times> string \<times> 'w state \<Rightarrow>
   (js_error + command_result) \<times> 'w state" where
  "on_close opts command args exit_code buffers =
     (case buffers of (out, err, s) \<Rightarrow>
        if exit_code = Some 0
        then (Inr \<lparr>stdout = out, stderr = err, code = exit_code\<rparr>,
              if warnOnStderr opts \<and> js_trim err \<noteq> [] \<and> logger opts
              then log Warn (''Command produced stderr output: '' @ js_trim err) s
              else s)
        else (Inl (ProcessError
                (''Command failed: '' @ command @ '' '' @ js_join '' '' args @
                 [newline] @ ''Exit code: '' @ show_code exit_code @
                 [newline] @ ''Stderr: '' @ err)),
              s))"

definition spawnAsync ::
  "'w env \<Rightarrow> string \<Rightarrow> string list \<Rightarrow> options \<Rightarrow> 'w state \<Rightarrow> (js_error + command_result) \<times> 'w state" where
  "spawnAsync env command args opts s0 =
     (let s1 = (if logger opts
                then log Debug (''Spawning: '' @ command @ '' '' @ js_join '' '' args) s0
                else s0);
          (outcome, w) = spawn env command args (stdio_of opts) (world s1);
          s2 = s1\<lparr>world := w, trace := trace s1 @ [Spawn command args (stdio_of opts)]\<rparr>
      in case outcome of
           ErrorEvent msg \<Rightarrow>
             (Inl (ProcessError (''Failed to spawn '' @ command @ '': '' @ msg)), s2)
         | CloseEvent chunks exit_code \<Rightarrow>
             on_close opts command args exit_code (deliver opts chunks ([], [], s2)))"

text \<open>\<open>error.code\<close>: the \<open>code\<close> property of a thrown value. What the constructor of
  \<open>ProcessError\<close> sets there is a parameter of the environment; the engine's errors
  have none.\<close>

fun error_code :: "'w env \<Rightarrow> js_error \<Rightarrow> string option" where
  "error_code env (ProcessError m) = processErrorCode env"
| "error_code env (TypeError m) = None"
| "error_code env (Error m) = None"

definition permission_denied :: "'w env \<Rightarrow> js_error \<Rightarrow> bool" where
  "permission_denied env e =
     (js_includes (message e) ''EACCES'' \<or>
      js_includes (message e) ''EPERM'' \<or>
      js_includes (message e) ''Permission denied'' \<or>
      error_code env e = Some ''EACCES'')"

text \<open>Whether a child ended with exit code zero.\<close>

fun exited_zero :: "child_outcome \<Rightarrow> bool" where
  "exited_zero (ErrorEvent msg) = False"
| "exited_zero (CloseEvent chunks exit_code) = (exit_code = Some 0)"

definition checkCommand :: "'w env \<Rightarrow> string \<Rightarrow> 'w state \<Rightarrow> bool \<times> 'w state" where
  "checkCommand env command s =
     (let checkCmd = (if platform env = ''win32'' then ''where'' else ''which'')
      in case spawnAsync env checkCmd [command] with_logger s of
           (Inr r, s') \<Rightarrow> (True, s')
         | (Inl e, s') \<Rightarrow> (False, s'))"

definition sudo_unavailable :: js_error where
  "sudo_unavailable = ProcessError
     ''Command requires elevated privileges, but sudo is not available. Run as root or install/configure sudo.''"

definition noninteractive_unavailable :: js_error where
  "noninteractive_unavailable = ProcessError
     ''Command requires sudo privileges, but non-interactive sudo is not available. Re-run with passwordless sudo or as root.''"

definition requiresPassword :: "js_error \<Rightarrow> bool" where
  "requiresPassword sudoError =
     (js_includes (message sudoError) ''password'' \<or>
      js_includes (message sudoError) ''a terminal is required'' \<or>
      js_includes (message sudoError) ''no tty'')"

text \<open>\<open>execSudo(args, logger)\<close> with \<open>args = [command, ...cmdArgs]\<close>: the array is given
  by its head and its rest.\<close>

definition execSudo ::
  "'w env \<Rightarrow> string \<Rightarrow> string list \<Rightarrow> 'w state \<Rightarrow> (js_error + command_result) \<times> 'w state" where
  "execSudo env command cmdArgs s0 =
     (let args = command # cmdArgs;
          s1 = log Debug (''Executing: '' @ js_join '' '' args) s0
      in case spawnAsync env command cmdArgs with_logger s1 of
           (Inr r, s2) \<Rightarrow> (Inr r, s2)
         | (Inl error, s2) \<Rightarrow>
             if permission_denied env error then
               (let s3 = log Debug ''Permission denied, retrying with sudo...'' s2 in
                if platform env \<noteq> ''win32'' then
                  (case checkCommand env ''sudo'' s3 of (sudoAvailable, s4) \<Rightarrow>
                     if \<not> sudoAvailable then (Inl sudo_unavailable, s4)
                     else
                       (case spawnAsync env ''sudo'' (''-n'' # args) with_logger s4 of
                          (Inr r, s5) \<Rightarrow> (Inr r, s5)
                        | (Inl sudoError, s5) \<Rightarrow>
                            if \<not> isTTY env \<or> requiresPassword sudoError
                            then (Inl noninteractive_unavailable, s5)
                            else spawnAsync env ''sudo'' args uncaptured
                                   (log Debug ''Sudo requires password, trying interactive sudo...'' s5)))
                else (Inl error, s3))
             else (Inl error, s2))"

definition canSudo :: "'w env \<Rightarrow> bool" where
  "canSudo env =
     (if platform env = ''win32'' then False
      else if getuid env = Some 0 then True
      else False)"

definition hasSudoAccess :: "'w env \<Rightarrow> 'w state \<Rightarrow> bool \<times> 'w state" where
  "hasSudoAccess env s =
     (if platform env = ''win32'' then (False, s)
      else if canSudo env then (True, s)
      else
        (case checkCommand env ''sudo'' s of (sudoAvailable, s1) \<Rightarrow>
           if \<not> sudoAvailable then (False, s1)
           else
             (case spawnAsync env ''sudo'' [''-n'', ''-v''] with_logger s1 of
                (Inr r, s2) \<Rightarrow> (True, s2)
              | (Inl e, s2) \<Rightarrow> (False, s2))))"

text \<open>The commands handed to the operating system, in order.\<close>

fun spawns :: "event list \<Rightarrow> (string \<times> string list \<times> stdio) list" where
  "spawns [] = []"
| "spawns (Spawn c a io # es) = (c, a, io) # spawns es"
| "spawns (e # es) = spawns es"

fun warnings :: "event list \<Rightarrow> string list" where
  "warnings [] = []"
| "warnings (Log Warn m # es) = m # warnings es"
| "warnings (e # es) = warnings es"

text \<open>What the \<open>data\<close> handlers leave behind, said without the loop: the text of each
  stream, kept only when the output is captured, and the lines logged under \<open>verbose\<close>.\<close>

fun stdout_text :: "child_event list \<Rightarrow> string" where
  "stdout_text [] = []"
| "stdout_text (StdoutData chunk # es) = chunk @ stdout_text es"
| "stdout_text (StderrData chunk # es) = stdout_text es"

fun stderr_text :: "child_event list \<Rightarrow> string" where
  "stderr_text [] = []"
| "stderr_text (StdoutData chunk # es) = stderr_text es"
| "stderr_text (StderrData chunk # es) = chunk @ stderr_text es"

definition captured_stdout :: "options \<Rightarrow> child_event list \<Rightarrow> string" where
  "captured_stdout opts chunks = (if captureOutput opts then stdout_text chunks else [])"

definition captured_stderr :: "options \<Rightarrow> child_event list \<Rightarrow> string" where
  "captured_stderr opts chunks = (if captureOutput opts then stderr_text chunks else [])"

fun verbose_logs :: "options \<Rightarrow> child_event list \<Rightarrow> event list" where
  "verbose_logs opts [] = []"
| "verbose_logs opts (StdoutData chunk # es) =
     (if captureOutput opts \<and> logger opts \<and> verbose opts
      then [Log Debug (''[stdout] '' @ js_trim chunk)] else []) @ verbose_logs opts es"
| "verbose_logs opts (StderrData chunk # es) =
     (if captureOutput opts \<and> logger opts \<and> verbose opts
      then [Log Debug (''[stderr] '' @ js_trim chunk)] else []) @ verbose_logs opts es"

section \<open>The orchestrator (\<open>execute\<close>, \<open>src/unnamed/part_001\<close>)\<close>

text \<open>
  The stage functions of the Linux, Windows and common executors are parameters: the
  function \<open>stage\<close> of the environment says, for an executor and a stage function, how
  the call changes the world and whether it returns or throws. The orchestrator's local
  object \<open>result\<close> is threaded beside the state, so that its value is known when a stage
  throws. At each \<open>await\<close> the trace records the value \<open>result\<close> has while \<open>execute\<close>
  is suspended, then the call and how it ended. The calls of \<open>logger.info\<close> and
  \<open>logger.error\<close> in \<open>execute\<close> only print and are left out.
\<close>

record plan =
  os :: string
  needsInstall :: bool
  plan_steps :: "string list"

definition initial_result :: execution_result where
  "initial_result =
     \<lparr>installed = False, configured = False, keysSetup = False, serviceStarted = False,
      steps = [], success = None\<rparr>"

definition push :: "string \<Rightarrow> execution_result \<Rightarrow> execution_result" where
  "push name r = r\<lparr>steps := steps r @ [name]\<rparr>"

text \<open>The two statements after each awaited stage: the flag, then the step name.\<close>

fun mark :: "stage_fn \<Rightarrow> execution_result \<Rightarrow> execution_result" where
  "mark InstallSSH r = push ''installed'' (r\<lparr>installed := True\<rparr>)"
| "mark ConfigureSSH r = push ''configured'' (r\<lparr>configured := True\<rparr>)"
| "mark SetupAuthorizedKeys r = push ''keys-setup'' (r\<lparr>keysSetup := True\<rparr>)"
| "mark StartSSH r = push ''service-started'' (r\<lparr>serviceStarted := True\<rparr>)"

definition step ::
  "'w env \<Rightarrow> executor \<Rightarrow> stage_fn \<Rightarrow> execution_result \<times> 'w state \<Rightarrow>
   (js_error + unit) \<times> execution_result \<times> 'w state" where
  "step env ex st rs =
     (case rs of (r, s) \<Rightarrow>
        (case stage env ex st (world s) of
           (Inl e, w) \<Rightarrow>
             (Inl e, r,
              s\<lparr>world := w, trace := trace s @ [Await r, StageCall ex st, StageThrow ex st]\<rparr>)
         | (Inr u, w) \<Rightarrow>
             (Inr (), mark st r,
              s\<lparr>world := w, trace := trace s @ [Await r, StageCall ex st, StageReturn ex st]\<rparr>)))"

text \<open>Sequencing inside the \<open>try\<close> block: a throw skips what follows.\<close>

definition andThen ::
  "(js_error + unit) \<times> 'a \<Rightarrow> ('a \<Rightarrow> (js_error + unit) \<times> 'a) \<Rightarrow> (js_error + unit) \<times> 'a" where
  "andThen x f = (case x of (Inl e, a) \<Rightarrow> (Inl e, a) | (Inr u, a) \<Rightarrow> f a)"

text \<open>The body of one branch of \<open>execute\<close>. The Linux and the Windows branch are the
  same text up to the executor whose functions they call.\<close>

definition run_stages ::
  "'w env \<Rightarrow> executor \<Rightarrow> plan \<Rightarrow> execution_result \<times> 'w state \<Rightarrow>
   (js_error + unit) \<times> execution_result \<times> 'w state" where
  "run_stages env ex p rs =
     andThen
       (andThen
          (andThen
             (if needsInstall p then step env ex InstallSSH rs else (Inr (), rs))
             (step env ex ConfigureSSH))
          (step env CommonExecutor SetupAuthorizedKeys))
       (step env ex StartSSH)"

definition insufficient_privileges :: js_error where
  "insufficient_privileges = ProcessError
     ''Insufficient privileges to configure SSH. Run as root or configure passwordless sudo.''"

text \<open>The end of the \<open>try\<close> block and the \<open>catch\<close> clause: \<open>result.success = true;
  return result\<close>, or the error wrapped into a new \<open>ProcessError\<close>.\<close>

definition settle ::
  "(js_error + unit) \<times> execution_result \<times> 'w state \<Rightarrow>
   (js_error + execution_result) \<times> execution_result \<times> 'w state" where
  "settle x =
     (case x of
        (Inr u, r, s) \<Rightarrow> (Inr (r\<lparr>success := Some True\<rparr>), r\<lparr>success := Some True\<rparr>, s)
      | (Inl error, r, s) \<Rightarrow>
          (Inl (ProcessError (''Execution failed: '' @ message error)), r, s))"

text \<open>\<open>execute\<close> gives what it returns or throws, the value of \<open>result\<close> when it ends,
  and the state.\<close>

definition execute ::
  "'w env \<Rightarrow> plan \<Rightarrow> 'w state \<Rightarrow> (js_error + execution_result) \<times> execution_result \<times> 'w state" where
  "execute env p s0 =
     settle
       (if os p = ''linux'' then
          (case hasSudoAccess env (s0\<lparr>trace := trace s0 @ [Await initial_result]\<rparr>) of
             (sudoAccess, s1) \<Rightarrow>
               if \<not> sudoAccess then (Inl insufficient_privileges, initial_result, s1)
               else run_stages env LinuxExecutor p (initial_result, s1))
        else if os p = ''windows'' then run_stages env WindowsExecutor p (initial_result, s0)
        else (Inr (), initial_result, s0))"

text \<open>Readings of a trace: the stage functions entered, those that returned, those that
  threw, and the values \<open>result\<close> had at the awaits.\<close>

fun entered :: "event list \<Rightarrow> (executor \<times> stage_fn) list" where
  "entered [] = []"
| "entered (StageCall ex st # es) = (ex, st) # entered es"
| "entered (e # es) = entered es"

fun returned :: "event list \<Rightarrow> stage_fn list" where
  "returned [] = []"
| "returned (StageReturn ex st # es) = st # returned es"
| "returned (e # es) = returned es"

fun thrown :: "event list \<Rightarrow> stage_fn list" where
  "thrown [] = []"
| "thrown (StageThrow ex st # es) = st # thrown es"
| "thrown (e # es) = thrown es"

fun awaited :: "event list \<Rightarrow> execution_result list" where
  "awaited [] = []"
| "awaited (Await r # es) = r # awaited es"
| "awaited (e # es) = awaited es"

text \<open>The events the process adapter writes: commands and log lines.\<close>

fun adapter_event :: "event \<Rightarrow> bool" where
  "adapter_event (Spawn c a io) = True"
| "adapter_event (Log l m) = True"
| "adapter_event e = False"

fun step_name :: "stage_fn \<Rightarrow> string" where
  "step_name InstallSSH = ''installed''"
| "step_name ConfigureSSH = ''configured''"
| "step_name SetupAuthorizedKeys = ''keys-setup''"
| "step_name StartSSH = ''service-started''"

text \<open>The first of the two statements after an awaited stage, alone: the flag is set, the
  step name not yet pushed.\<close>

fun set_flag :: "stage_fn \<Rightarrow> execution_result \<Rightarrow> execution_result" where
  "set_flag InstallSSH r = r\<lparr>installed := True\<rparr>"
| "set_flag ConfigureSSH r = r\<lparr>configured := True\<rparr>"
| "set_flag SetupAuthorizedKeys r = r\<lparr>keysSetup := True\<rparr>"
| "set_flag StartSSH r = r\<lparr>serviceStarted := True\<rparr>"

text \<open>The values \<open>result\<close> takes during a run, statement by statement, read off the
  events of the run from the value it starts with: \<open>result\<close> keeps its value until a
  stage function returns; then the assignment of the flag gives one value and the
  \<open>push\<close> of the step name the next.\<close>

fun result_states :: "execution_result \<Rightarrow> event list \<Rightarrow> execution_result list" where
  "result_states r [] = [r]"
| "result_states r (StageReturn ex st # es) =
     r # set_flag st r # result_states (push (step_name st) (set_flag st r)) es"
| "result_states r (e # es) = result_states r es"

definition stage_names :: "bool \<Rightarrow> string list" where
  "stage_names install =
     (if install then [''installed''] else []) @ [''configured'', ''keys-setup'', ''service-started'']"

definition flags_agree :: "execution_result \<Rightarrow> bool" where
  "flags_agree r =
     ((installed r = (''installed'' \<in> set (steps r))) \<and>
      (configured r = (''configured'' \<in> set (steps r))) \<and>
      (keysSetup r = (''keys-setup'' \<in> set (steps r))) \<and>
      (serviceStarted r = (''service-started'' \<in> set (steps r))))"

text \<open>The stage calls of a branch as a list, and the list run one call after the other:
  \<open>run_stages\<close> said as a loop, for the proofs.\<close>

definition pipeline :: "executor \<Rightarrow> bool \<Rightarrow> (executor \<times> stage_fn) list" where
  "pipeline ex install =
     (if install then [(ex, InstallSSH)] else []) @
     [(ex, ConfigureSSH), (CommonExecutor, SetupAuthorizedKeys), (ex, StartSSH)]"

fun run_list ::
  "'w env \<Rightarrow> (executor \<times> stage_fn) list \<Rightarrow> execution_result \<times> 'w state \<Rightarrow>
   (js_error + unit) \<times> execution_result \<times> 'w state" where
  "run_list env [] rs = (Inr (), rs)"
| "run_list env ((ex, st) # calls) rs = andThen (step env ex st rs) (run_list env calls)"

text \<open>The events a list of stage calls appends to the trace.\<close>

fun stage_events ::
  "'w env \<Rightarrow> (executor \<times> stage_fn) list \<Rightarrow> execution_result \<Rightarrow> 'w \<Rightarrow> event list" where
  "stage_events env [] r w = []"
| "stage_events env ((ex, st) # calls) r w =
     (case stage env ex st w of
        (Inl e, w') \<Rightarrow> [Await r, StageCall ex st, StageThrow ex st]
      | (Inr u, w') \<Rightarrow>
          [Await r, StageCall ex st, StageReturn ex st] @ stage_events env calls (mark st r) w')"

section \<open>The Windows configuration document (\<open>generateSSHDConfig\<close>, \<open>src/unnamed/part_000\<close>)\<close>

text \<open>
  \<open>config.allowUsers\<close> is read with \<open>split\<close>, a method of strings. The field is a
  JavaScript value: a string has the method; an array has no property \<open>split\<close>, and
  calling it throws a \<open>TypeError\<close>.
\<close>

datatype js_value = JSString string | JSArray "string list"

record config =
  port :: int
  mode :: string
  allowUsers :: js_value
  defaultCwd :: string
  disableForceCwd :: bool
  cwd :: string

definition dquote :: char where
  "dquote = CHR 0x22"

text \<open>\<open>replace(/\//g, '\\\\')\<close>: every slash becomes two backslashes.\<close>

definition replace_slashes :: "string \<Rightarrow> string" where
  "replace_slashes s = concat (map (\<lambda>c. if c = CHR ''/'' then [backslash, backslash] else [c]) s)"

definition truthy :: "string \<Rightarrow> bool" where
  "truthy s = (s \<noteq> [])"

definition unlines :: "string list \<Rightarrow> string" where
  "unlines ls = concat (map (\<lambda>l. l @ [newline]) ls)"

definition generateSSHDConfig :: "config \<Rightarrow> js_error + string" where
  "generateSSHDConfig config =
     (case allowUsers config of
        JSArray entries \<Rightarrow> Inl (TypeError ''config.allowUsers.split is not a function'')
      | JSString users \<Rightarrow>
          (let allowUsersArr = filter (\<lambda>u. truthy (js_trim u)) (js_split CHR '' '' users);
               forceCommandLine =
                 (if \<not> disableForceCwd config
                  then ''ForceCommand cmd /c '' @ [dquote] @ ''cd /d '' @
                       replace_slashes (defaultCwd config) @ '' && cmd'' @ [dquote]
                  else [])
           in Inr (unlines
                [''# SSH Server Configuration - Generated by runner-add-ssh'',
                 ''# Port'',
                 ''Port '' @ show_int (port config),
                 [],
                 ''# Authentication'',
                 ''PubkeyAuthentication yes'',
                 ''PasswordAuthentication no'',
                 ''ChallengeResponseAuthentication no'',
                 [],
                 ''# Security'',
                 ''PermitRootLogin no'',
                 ''StrictModes yes'',
                 ''MaxAuthTries 3'',
                 ''MaxSessions 10'',
                 [],
                 ''# Allowed users'',
                 ''AllowUsers '' @ js_join '' '' allowUsersArr,
                 [],
                 ''# Windows-specific'',
                 ''Subsystem sftp sftp-server.exe'',
                 [],
                 ''# Logging'',
                 ''SyslogFacility AUTH'',
                 ''LogLevel INFO'',
                 [],
                 ''# Default working directory'',
                 forceCommandLine,
                 [],
                 ''# Performance'',
                 ''UseDNS no''])))"

definition lines_of :: "string \<Rightarrow> string list" where
  "lines_of doc = js_split newline doc"

section \<open>A scripted host and a sample configuration\<close>

text \<open>A small operating system for running the model on concrete inputs: it answers each
  command by its name and counts the commands it has run.\<close>

definition scripted_spawn :: "string \<Rightarrow> string list \<Rightarrow> stdio \<Rightarrow> nat \<Rightarrow> child_outcome \<times> nat" where
  "scripted_spawn command args io n =
     (if command = ''which'' \<or> command = ''where''
        then CloseEvent [StdoutData ''/usr/bin/sudo''] (Some 0)
      else if command = ''sudo'' \<and> io = Pipe \<and> take 2 args = [''-n'', ''cp'']
        then CloseEvent [StderrData ''sudo: a password is required''] (Some 1)
      else if command = ''sudo''
        then CloseEvent [] (Some 0)
      else if command = ''systemctl''
        then CloseEvent [StdoutData ''active'', StderrData ''  ''] (Some 0)
      else if command = ''apt-get''
        then CloseEvent [StderrData ''E: Could not open lock file - open (13: Permission denied)'']
               (Some 100)
      else if command = ''cp''
        then CloseEvent [StderrData ''cp: cannot create regular file: Permission denied''] (Some 1)
      else ErrorEvent (''spawn '' @ command @ '' ENOENT''),
      Suc n)"

text \<open>Stage functions that return, but for \<open>startSSH\<close>, which throws when the world
  holds an odd number.\<close>

definition scripted_stage :: "executor \<Rightarrow> stage_fn \<Rightarrow> nat \<Rightarrow> (js_error + unit) \<times> nat" where
  "scripted_stage ex st n =
     (if st = StartSSH \<and> odd n
      then (Inl (ProcessError ''Failed to start SSH service: SSH service failed to start''), n)
      else (Inr (), n + 2))"

definition linux_host :: "nat env" where
  "linux_host = \<lparr>platform = ''linux'', getuid = Some 1000, isTTY = True,
     processErrorCode = None, spawn = scripted_spawn, stage = scripted_stage\<rparr>"

definition windows_host :: "nat env" where
  "windows_host = \<lparr>platform = ''win32'', getuid = None, isTTY = True,
     processErrorCode = None, spawn = scripted_spawn, stage = scripted_stage\<rparr>"

text \<open>A Linux host on which no command can be spawned, so that \<open>which sudo\<close> fails.\<close>

definition bare_host :: "nat env" where
  "bare_host = \<lparr>platform = ''linux'', getuid = Some 1000, isTTY = False,
     processErrorCode = None,
     spawn = (\<lambda>command args io n. (ErrorEvent (''spawn '' @ command @ '' ENOENT''), Suc n)),
     stage = scripted_stage\<rparr>"

text \<open>A Linux host without \<open>sudo\<close>: \<open>which\<close> finds nothing and exits with 1, and \<open>cp\<close>
  is refused for lack of permission.\<close>

definition sudoless_spawn :: "string \<Rightarrow> string list \<Rightarrow> stdio \<Rightarrow> nat \<Rightarrow> child_outcome \<times> nat" where
  "sudoless_spawn command args io n =
     (if command = ''cp''
        then CloseEvent [StderrData ''cp: cannot create regular file: Permission denied''] (Some 1)
      else if command = ''which''
        then CloseEvent [] (Some 1)
      else ErrorEvent (''spawn '' @ command @ '' ENOENT''),
      Suc n)"

definition sudoless_host :: "nat env" where
  "sudoless_host = \<lparr>platform = ''linux'', getuid = Some 1000, isTTY = True,
     processErrorCode = None, spawn = sudoless_spawn, stage = scripted_stage\<rparr>"

definition start :: "nat state" where
  "start = \<lparr>world = 0, trace = []\<rparr>"

definition sample_config :: config where
  "sample_config =
     \<lparr>port = 2222, mode = ''auto'', allowUsers = JSString ''runner'', defaultCwd = ''C:/work'',
      disableForceCwd = False, cwd = ''C:/runner''\<rparr>"


section \<open>Properties of the process adapter\<close>

lemma spawns_append: "spawns (xs @ ys) = spawns xs @ spawns ys"
  by (induction xs rule: spawns.induct) simp_all

lemma warnings_append: "warnings (xs @ ys) = warnings xs @ warnings ys"
  by (induction xs rule: warnings.induct) simp_all

lemma spawns_verbose_logs: "spawns (verbose_logs opts es) = []"
  by (induction opts es rule: verbose_logs.induct) simp_all

lemma warnings_verbose_logs: "warnings (verbose_logs opts es) = []"
  by (induction opts es rule: verbose_logs.induct) simp_all

lemma deliver_eq:
  "deliver opts es (out, err, s) =
     (out @ captured_stdout opts es, err @ captured_stderr opts es,
      s\<lparr>trace := trace s @ verbose_logs opts es\<rparr>)"
  by (induction opts es "(out, err, s)" arbitrary: out err s rule: deliver.induct)
     (simp_all add: captured_stdout_def captured_stderr_def log_def)

lemma spawnAsync_error_event:
  assumes "spawn env command args (stdio_of opts) (world s) = (ErrorEvent msg, w)"
  shows "spawnAsync env command args opts s =
           (Inl (ProcessError (''Failed to spawn '' @ command @ '': '' @ msg)),
            s\<lparr>world := w,
              trace := trace s @
               (if logger opts
                then [Log Debug (''Spawning: '' @ command @ '' '' @ js_join '' '' args)] else []) @
               [Spawn command args (stdio_of opts)]\<rparr>)"
  using assms by (cases "logger opts") (simp_all add: spawnAsync_def Let_def log_def)

lemma spawnAsync_close_event:
  assumes "spawn env command args (stdio_of opts) (world s) = (CloseEvent chunks c, w)"
  shows "spawnAsync env command args opts s =
           on_close opts command args c
             (captured_stdout opts chunks, captured_stderr opts chunks,
              s\<lparr>world := w,
                trace := trace s @
                 (if logger opts
                  then [Log Debug (''Spawning: '' @ command @ '' '' @ js_join '' '' args)] else []) @
                 [Spawn command args (stdio_of opts)] @ verbose_logs opts chunks\<rparr>)"
  using assms by (cases "logger opts") (simp_all add: spawnAsync_def Let_def log_def deliver_eq)

lemma on_close_trace:
  "spawns (trace (snd (on_close opts command args c (out, err, s)))) = spawns (trace s)"
  by (simp add: on_close_def log_def spawns_append)

lemma spawnAsync_spawns:
  "spawns (trace (snd (spawnAsync env command args opts s))) =
     spawns (trace s) @ [(command, args, stdio_of opts)]"
proof -
  obtain outcome w where sp: "spawn env command args (stdio_of opts) (world s) = (outcome, w)"
    by (cases "spawn env command args (stdio_of opts) (world s)")
  show ?thesis
  proof (cases outcome)
    case (ErrorEvent msg)
    with sp show ?thesis
      by (simp add: spawnAsync_error_event spawns_append)
  next
    case (CloseEvent chunks c)
    with sp show ?thesis
      by (simp add: spawnAsync_close_event on_close_trace spawns_append spawns_verbose_logs)
  qed
qed


lemma spawns_log: "spawns (trace (log l m s)) = spawns (trace s)"
  by (simp add: log_def spawns_append)

lemma stdio_of_with_logger: "stdio_of with_logger = Pipe"
  by (simp add: stdio_of_def with_logger_def default_options_def)

lemma stdio_of_uncaptured: "stdio_of uncaptured = Inherit"
  by (simp add: stdio_of_def uncaptured_def default_options_def)

lemma checkCommand_spawns:
  "spawns (trace (snd (checkCommand env c s))) =
     spawns (trace s) @ [(if platform env = ''win32'' then ''where'' else ''which'', [c], Pipe)]"
proof -
  let ?cmd = "if platform env = ''win32'' then ''where'' else ''which''"
  have "snd (checkCommand env c s) = snd (spawnAsync env ?cmd [c] with_logger s)"
    by (simp add: checkCommand_def Let_def split: prod.splits sum.splits)
  then show ?thesis
    using spawnAsync_spawns[of env ?cmd "[c]" with_logger s]
    by (simp add: stdio_of_with_logger)
qed

lemma world_log: "world (log l m s) = world s"
  by (simp add: log_def)

lemma checkCommand_outcome:
  assumes "spawn env (if platform env = ''win32'' then ''where'' else ''which'') [c] Pipe (world s) =
             (outcome, w)"
  shows "fst (checkCommand env c s) = exited_zero outcome"
proof -
  let ?cmd = "if platform env = ''win32'' then ''where'' else ''which''"
  have sp: "spawn env ?cmd [c] (stdio_of with_logger) (world s) = (outcome, w)"
    using assms by (simp add: stdio_of_with_logger)
  show ?thesis
  proof (cases outcome)
    case (ErrorEvent msg)
    with spawnAsync_error_event[of env ?cmd "[c]" with_logger s msg w] sp show ?thesis
      by (simp add: checkCommand_def)
  next
    case (CloseEvent chunks ec)
    with spawnAsync_close_event[of env ?cmd "[c]" with_logger s chunks ec w] sp show ?thesis
      by (simp add: checkCommand_def on_close_def)
  qed
qed

lemmas eval_defs = spawnAsync_def on_close_def log_def stdio_of_def with_logger_def uncaptured_def
  default_options_def scripted_spawn_def linux_host_def windows_host_def start_def Let_def
  checkCommand_def newline_def js_trim_def js_whitespace_def show_int_def
  permission_denied_def requiresPassword_def sudoless_host_def sudoless_spawn_def

lemma execSudo_first_ok:
  assumes "spawnAsync env command cmdArgs with_logger
             (log Debug (''Executing: '' @ js_join '' '' (command # cmdArgs)) s) = (Inr r, s2)"
  shows "execSudo env command cmdArgs s = (Inr r, s2)"
  using assms by (simp add: execSudo_def Let_def)

lemma spawnAsync_error_shape:
  assumes "spawnAsync env command args opts s = (Inl e, s')"
  shows "(\<exists>m. e = ProcessError (''Failed to spawn '' @ m)) \<or>
         (\<exists>m. e = ProcessError (''Command failed: '' @ m))"
proof -
  obtain outcome w where sp: "spawn env command args (stdio_of opts) (world s) = (outcome, w)"
    by (cases "spawn env command args (stdio_of opts) (world s)")
  show ?thesis
  proof (cases outcome)
    case (ErrorEvent msg)
    with sp assms show ?thesis
      by (auto simp: spawnAsync_error_event)
  next
    case (CloseEvent chunks c)
    with sp assms show ?thesis
      by (auto simp: spawnAsync_close_event on_close_def split: if_splits)
  qed
qed

lemma sudo_unavailable_distinct:
  assumes "spawnAsync env command args opts s = (Inl e, s')"
  shows "e \<noteq> sudo_unavailable" and "e \<noteq> noninteractive_unavailable"
  using spawnAsync_error_shape[OF assms]
  by (auto simp: sudo_unavailable_def noninteractive_unavailable_def)


text \<open>
  Claim C7. A single direct invocation whose child closes: with exit code zero
  \<open>spawnAsync\<close> returns the captured stdout and stderr with code 0, whatever stderr
  holds, and logs one warning exactly when the trimmed stderr is not empty (and
  \<open>warnOnStderr\<close> and a logger are given); with any other exit code it throws a
  \<open>ProcessError\<close> whose message holds the command, the arguments joined by spaces, the
  exit code and the captured stderr. Either way one command was handed to the operating
  system; and \<open>execSudo\<close>, whose direct attempt exits with zero, returns that result
  after this one command, with no retry.
\<close>

theorem spawnAsync_exit_code:
  assumes "spawn env command args (stdio_of opts) (world s) = (CloseEvent chunks c, w)"
  shows "(\<exists>s'. spawnAsync env command args opts s =
           (if c = Some 0
            then Inr \<lparr>stdout = captured_stdout opts chunks, stderr = captured_stderr opts chunks,
                      code = Some 0\<rparr>
            else Inl (ProcessError
                   (''Command failed: '' @ command @ '' '' @ js_join '' '' args @
                    [newline] @ ''Exit code: '' @ show_code c @
                    [newline] @ ''Stderr: '' @ captured_stderr opts chunks)), s') \<and>
           world s' = w \<and>
           spawns (trace s') = spawns (trace s) @ [(command, args, stdio_of opts)] \<and>
           warnings (trace s') = warnings (trace s) @
             (if c = Some 0 \<and> warnOnStderr opts \<and> js_trim (captured_stderr opts chunks) \<noteq> [] \<and>
                 logger opts
              then [''Command produced stderr output: '' @ js_trim (captured_stderr opts chunks)]
              else [])) \<and>
         (if c = Some 0 \<and> opts = with_logger
          then \<exists>s'. execSudo env command args s =
                 (Inr \<lparr>stdout = stdout_text chunks, stderr = stderr_text chunks, code = Some 0\<rparr>,
                  s') \<and>
                 spawns (trace s') = spawns (trace s) @ [(command, args, Pipe)]
          else True)"
proof -
  have direct: "\<exists>s'. spawnAsync env command args opts s =
           (if c = Some 0
            then Inr \<lparr>stdout = captured_stdout opts chunks, stderr = captured_stderr opts chunks,
                      code = Some 0\<rparr>
            else Inl (ProcessError
                   (''Command failed: '' @ command @ '' '' @ js_join '' '' args @
                    [newline] @ ''Exit code: '' @ show_code c @
                    [newline] @ ''Stderr: '' @ captured_stderr opts chunks)), s') \<and>
           world s' = w \<and>
           spawns (trace s') = spawns (trace s) @ [(command, args, stdio_of opts)] \<and>
           warnings (trace s') = warnings (trace s) @
             (if c = Some 0 \<and> warnOnStderr opts \<and> js_trim (captured_stderr opts chunks) \<noteq> [] \<and>
                 logger opts
              then [''Command produced stderr output: '' @ js_trim (captured_stderr opts chunks)]
              else [])"
    using spawnAsync_close_event[OF assms]
    by (simp add: on_close_def log_def spawns_append warnings_append spawns_verbose_logs
        warnings_verbose_logs)
  have runner: "\<exists>s'. execSudo env command args s =
                 (Inr \<lparr>stdout = stdout_text chunks, stderr = stderr_text chunks, code = Some 0\<rparr>,
                  s') \<and>
                 spawns (trace s') = spawns (trace s) @ [(command, args, Pipe)]"
    if zero: "c = Some 0" and o: "opts = with_logger"
  proof -
    let ?s1 = "log Debug (''Executing: '' @ js_join '' '' (command # args)) s"
    have sp: "spawn env command args (stdio_of with_logger) (world ?s1) = (CloseEvent chunks c, w)"
      using assms o by (simp add: world_log)
    obtain r s2 where first: "spawnAsync env command args with_logger ?s1 = (r, s2)"
      by (cases "spawnAsync env command args with_logger ?s1")
    have r: "r = Inr \<lparr>stdout = stdout_text chunks, stderr = stderr_text chunks, code = Some 0\<rparr>"
      using spawnAsync_close_event[OF sp] first zero
      by (simp add: on_close_def captured_stdout_def captured_stderr_def with_logger_def
          default_options_def)
    have "spawns (trace s2) = spawns (trace s) @ [(command, args, Pipe)]"
      using spawnAsync_spawns[of env command args with_logger ?s1] first
      by (simp add: spawns_log stdio_of_with_logger)
    with execSudo_first_ok[of env command args s] first r show ?thesis by simp
  qed
  from direct runner show ?thesis by simp
qed

theorem spawnAsync_exit_code_witness:
  "spawnAsync linux_host ''systemctl'' [''is-active'', ''ssh''] with_logger start =
     (Inr \<lparr>stdout = ''active'', stderr = ''  '', code = Some 0\<rparr>,
      \<lparr>world = 1,
       trace = [Log Debug ''Spawning: systemctl is-active ssh'',
                Spawn ''systemctl'' [''is-active'', ''ssh''] Pipe]\<rparr>) \<and>
   spawns (trace (snd (execSudo linux_host ''systemctl'' [''is-active'', ''ssh''] start))) =
     [(''systemctl'', [''is-active'', ''ssh''], Pipe)] \<and>
   fst (spawnAsync linux_host ''cp'' [''a'', ''b''] with_logger start) =
     Inl (ProcessError (''Command failed: cp a b'' @ [newline] @ ''Exit code: 1'' @ [newline] @
            ''Stderr: cp: cannot create regular file: Permission denied''))"
proof -
  have a: "spawn linux_host ''systemctl'' [''is-active'', ''ssh''] (stdio_of with_logger) (world start) =
      (CloseEvent [StdoutData ''active'', StderrData ''  ''] (Some 0), 1)"
    by (simp add: eval_defs)
  have b: "spawn linux_host ''cp'' [''a'', ''b''] (stdio_of with_logger) (world start) =
      (CloseEvent [StderrData ''cp: cannot create regular file: Permission denied''] (Some 1), 1)"
    by (simp add: eval_defs)
  have t0: "trace start = []" by (simp add: start_def)
  from spawnAsync_exit_code[OF a] spawnAsync_exit_code[OF b] t0 show ?thesis
    by (auto simp add: eval_defs captured_stdout_def captured_stderr_def show_nat.simps
        decimal_digits_def)
qed

text \<open>
  Claim C5. A direct attempt that fails with a message containing \<open>EACCES\<close>, \<open>EPERM\<close> or
  \<open>Permission denied\<close>, on a platform other than \<open>win32\<close>: the next command handed to
  the operating system is \<open>which sudo\<close>, and what follows is decided by how that child
  ends. When it does not exit with code zero (sudo is not on the PATH), \<open>execSudo\<close>
  throws the error "requires elevated privileges, but sudo is not available", which is
  not the error of the direct attempt, and nothing else is run. When it exits with zero,
  the next command is \<open>sudo -n\<close> with the original command line, run once, and the only
  command that can follow it is the interactive \<open>sudo\<close> with inherited stdio. The
  witness runs both cases.
\<close>

theorem execSudo_escalation:
  assumes nonwin: "platform env \<noteq> ''win32''"
    and first: "spawnAsync env command cmdArgs with_logger
           (log Debug (''Executing: '' @ js_join '' '' (command # cmdArgs)) s) = (Inl e, s2)"
    and sig: "js_includes (message e) ''EACCES'' \<or> js_includes (message e) ''EPERM'' \<or>
              js_includes (message e) ''Permission denied''"
    and which: "spawn env ''which'' [''sudo''] Pipe (world s2) = (outcome, w)"
  shows "if exited_zero outcome
         then \<exists>rest. spawns (trace (snd (execSudo env command cmdArgs s))) =
                  spawns (trace s) @
                  [(command, cmdArgs, Pipe), (''which'', [''sudo''], Pipe),
                   (''sudo'', ''-n'' # command # cmdArgs, Pipe)] @ rest \<and>
                (rest = [] \<or> rest = [(''sudo'', command # cmdArgs, Inherit)])
         else fst (execSudo env command cmdArgs s) = Inl sudo_unavailable \<and>
              sudo_unavailable \<noteq> e \<and>
              spawns (trace (snd (execSudo env command cmdArgs s))) =
                spawns (trace s) @ [(command, cmdArgs, Pipe), (''which'', [''sudo''], Pipe)]"
proof -
  let ?s3 = "log Debug ''Permission denied, retrying with sudo...'' s2"
  obtain sudoAvailable s4 where chk: "checkCommand env ''sudo'' ?s3 = (sudoAvailable, s4)"
    by (cases "checkCommand env ''sudo'' ?s3")
  have avail: "sudoAvailable = exited_zero outcome"
    using checkCommand_outcome[of env "''sudo''" ?s3 outcome w] which nonwin chk
    by (simp add: world_log)
  have pd: "permission_denied env e"
    using sig by (auto simp: permission_denied_def)
  have t2: "spawns (trace s2) = spawns (trace s) @ [(command, cmdArgs, Pipe)]"
    using spawnAsync_spawns[of env command cmdArgs with_logger
        "log Debug (''Executing: '' @ js_join '' '' (command # cmdArgs)) s"] first
    by (simp add: spawns_log stdio_of_with_logger)
  have t4: "spawns (trace s4) = spawns (trace s2) @ [(''which'', [''sudo''], Pipe)]"
    using checkCommand_spawns[of env "''sudo''" ?s3] chk nonwin
    by (simp add: spawns_log)
  show ?thesis
  proof (cases sudoAvailable)
    case False
    have "execSudo env command cmdArgs s = (Inl sudo_unavailable, s4)"
      using first pd nonwin chk False by (simp add: execSudo_def Let_def)
    with False avail t2 t4 sudo_unavailable_distinct(1)[OF first] show ?thesis by auto
  next
    case True
    obtain r5 s5 where second:
      "spawnAsync env ''sudo'' (''-n'' # command # cmdArgs) with_logger s4 = (r5, s5)"
      by (cases "spawnAsync env ''sudo'' (''-n'' # command # cmdArgs) with_logger s4")
    have t5: "spawns (trace s5) = spawns (trace s4) @ [(''sudo'', ''-n'' # command # cmdArgs, Pipe)]"
      using spawnAsync_spawns[of env "''sudo''" "''-n'' # command # cmdArgs" with_logger s4] second
      by (simp add: stdio_of_with_logger)
    let ?s6 = "log Debug ''Sudo requires password, trying interactive sudo...'' s5"
    have t6: "spawns (trace (snd (spawnAsync env ''sudo'' (command # cmdArgs) uncaptured ?s6))) =
                spawns (trace s5) @ [(''sudo'', command # cmdArgs, Inherit)]"
      using spawnAsync_spawns[of env "''sudo''" "command # cmdArgs" uncaptured ?s6]
      by (simp add: spawns_log stdio_of_uncaptured)
    have "snd (execSudo env command cmdArgs s) = s5 \<or>
          snd (execSudo env command cmdArgs s) =
            snd (spawnAsync env ''sudo'' (command # cmdArgs) uncaptured ?s6)"
      using first pd nonwin chk True second
      by (cases r5) (simp_all add: execSudo_def Let_def)
    with True avail t2 t4 t5 t6 show ?thesis by auto
  qed
qed

theorem execSudo_escalation_witness:
  "fst (execSudo linux_host ''apt-get'' [''update''] start) =
     Inr \<lparr>stdout = [], stderr = [], code = Some 0\<rparr> \<and>
   spawns (trace (snd (execSudo linux_host ''apt-get'' [''update''] start))) =
     [(''apt-get'', [''update''], Pipe), (''which'', [''sudo''], Pipe),
      (''sudo'', [''-n'', ''apt-get'', ''update''], Pipe)] \<and>
   fst (execSudo sudoless_host ''cp'' [''a'', ''b''] start) = Inl sudo_unavailable \<and>
   spawns (trace (snd (execSudo sudoless_host ''cp'' [''a'', ''b''] start))) =
     [(''cp'', [''a'', ''b''], Pipe), (''which'', [''sudo''], Pipe)]"
proof -
  have nonwin: "platform linux_host \<noteq> ''win32''" by (simp add: linux_host_def)
  obtain e s2 where first: "spawnAsync linux_host ''apt-get'' [''update''] with_logger
           (log Debug (''Executing: '' @ js_join '' '' (''apt-get'' # [''update''])) start) = (Inl e, s2)"
    and e: "e = ProcessError (''Command failed: apt-get update'' @ [newline] @ ''Exit code: 100'' @
            [newline] @ ''Stderr: E: Could not open lock file - open (13: Permission denied)'')"
    and w2: "world s2 = 1"
    by (simp add: eval_defs show_nat.simps decimal_digits_def)
  have sig: "js_includes (message e) ''EACCES'' \<or> js_includes (message e) ''EPERM'' \<or>
              js_includes (message e) ''Permission denied''"
    unfolding e by (simp add: newline_def)
  have which: "spawn linux_host ''which'' [''sudo''] Pipe (world s2) =
                 (CloseEvent [StdoutData ''/usr/bin/sudo''] (Some 0), 2)"
    unfolding w2 by (simp add: eval_defs)
  have present: "\<exists>rest. spawns (trace (snd (execSudo linux_host ''apt-get'' [''update''] start))) =
                  spawns (trace start) @
                  [(''apt-get'', [''update''], Pipe), (''which'', [''sudo''], Pipe),
                   (''sudo'', ''-n'' # ''apt-get'' # [''update''], Pipe)] @ rest \<and>
                (rest = [] \<or> rest = [(''sudo'', ''apt-get'' # [''update''], Inherit)])"
    using execSudo_escalation[OF nonwin first sig which] by simp
  have nonwin': "platform sudoless_host \<noteq> ''win32''" by (simp add: sudoless_host_def)
  obtain e' s2' where first': "spawnAsync sudoless_host ''cp'' [''a'', ''b''] with_logger
           (log Debug (''Executing: '' @ js_join '' '' (''cp'' # [''a'', ''b''])) start) = (Inl e', s2')"
    and e': "e' = ProcessError (''Command failed: cp a b'' @ [newline] @ ''Exit code: 1'' @ [newline] @
            ''Stderr: cp: cannot create regular file: Permission denied'')"
    and w2': "world s2' = 1"
    by (simp add: eval_defs show_nat.simps decimal_digits_def)
  have sig': "js_includes (message e') ''EACCES'' \<or> js_includes (message e') ''EPERM'' \<or>
              js_includes (message e') ''Permission denied''"
    unfolding e' by (simp add: newline_def)
  have which': "spawn sudoless_host ''which'' [''sudo''] Pipe (world s2') = (CloseEvent [] (Some 1), 2)"
    unfolding w2' by (simp add: eval_defs)
  have absent: "fst (execSudo sudoless_host ''cp'' [''a'', ''b''] start) = Inl sudo_unavailable \<and>
     spawns (trace (snd (execSudo sudoless_host ''cp'' [''a'', ''b''] start))) =
       spawns (trace start) @ [(''cp'', [''a'', ''b''], Pipe), (''which'', [''sudo''], Pipe)]"
    using execSudo_escalation[OF nonwin' first' sig' which'] by simp
  have run: "fst (execSudo linux_host ''apt-get'' [''update''] start) =
       Inr \<lparr>stdout = [], stderr = [], code = Some 0\<rparr> \<and>
     spawns (trace (snd (execSudo linux_host ''apt-get'' [''update''] start))) =
     [(''apt-get'', [''update''], Pipe), (''which'', [''sudo''], Pipe),
      (''sudo'', [''-n'', ''apt-get'', ''update''], Pipe)]"
    by (simp add: execSudo_def eval_defs show_nat.simps decimal_digits_def)
  have t0: "trace start = []" by (simp add: start_def)
  from present absent run t0 show ?thesis by simp
qed

text \<open>
  Claim C6. On \<open>win32\<close> a direct attempt that fails with a permission-denied signature
  is not retried: \<open>execSudo\<close> throws the very error the attempt threw, and the attempt
  is the only command run.
\<close>

theorem execSudo_windows:
  assumes "platform env = ''win32''"
    and "spawnAsync env command cmdArgs with_logger
           (log Debug (''Executing: '' @ js_join '' '' (command # cmdArgs)) s) = (Inl e, s2)"
    and "permission_denied env e"
  shows "fst (execSudo env command cmdArgs s) = Inl e \<and>
         spawns (trace (snd (execSudo env command cmdArgs s))) =
           spawns (trace s) @ [(command, cmdArgs, Pipe)]"
proof -
  have "execSudo env command cmdArgs s =
          (Inl e, log Debug ''Permission denied, retrying with sudo...'' s2)"
    using assms by (simp add: execSudo_def Let_def)
  moreover have "spawns (trace s2) = spawns (trace s) @ [(command, cmdArgs, Pipe)]"
    using spawnAsync_spawns[of env command cmdArgs with_logger
        "log Debug (''Executing: '' @ js_join '' '' (command # cmdArgs)) s"] assms(2)
    by (simp add: spawns_log stdio_of_with_logger)
  ultimately show ?thesis by (simp add: spawns_log)
qed

theorem execSudo_windows_witness:
  "platform windows_host = ''win32'' \<and>
   fst (execSudo windows_host ''cp'' [''a'', ''b''] start) =
     Inl (ProcessError (''Command failed: cp a b'' @ [newline] @ ''Exit code: 1'' @ [newline] @
            ''Stderr: cp: cannot create regular file: Permission denied'')) \<and>
   spawns (trace (snd (execSudo windows_host ''cp'' [''a'', ''b''] start))) =
     [(''cp'', [''a'', ''b''], Pipe)]"
proof -
  obtain e s2 where first: "spawnAsync windows_host ''cp'' [''a'', ''b''] with_logger
           (log Debug (''Executing: '' @ js_join '' '' (''cp'' # [''a'', ''b''])) start) = (Inl e, s2)"
    and e: "e = ProcessError (''Command failed: cp a b'' @ [newline] @ ''Exit code: 1'' @ [newline] @
            ''Stderr: cp: cannot create regular file: Permission denied'')"
    by (simp add: eval_defs show_nat.simps decimal_digits_def)
  have pd: "permission_denied windows_host e"
    unfolding e by (simp add: permission_denied_def newline_def)
  have w: "platform windows_host = ''win32''" by (simp add: windows_host_def)
  from execSudo_windows[OF w first pd] e w show ?thesis
    by (simp add: start_def)
qed


text \<open>
  Claim C1. What \<open>execSudo\<close> does when \<open>sudo -n\<close> fails with a message containing
  \<open>password\<close>, \<open>a terminal is required\<close> or \<open>no tty\<close>: the guard
  \<open>!process.stdin.isTTY || requiresPassword\<close> holds whatever \<open>isTTY\<close> is, so the
  "non-interactive sudo is not available" error is thrown also in a terminal session,
  and no interactive \<open>sudo\<close> is run. The witness is a terminal session
  (\<open>isTTY = True\<close>).
\<close>

theorem execSudo_password_required:
  assumes nonwin: "platform env \<noteq> ''win32''"
    and first: "spawnAsync env command cmdArgs with_logger
           (log Debug (''Executing: '' @ js_join '' '' (command # cmdArgs)) s) = (Inl e, s2)"
    and pd: "permission_denied env e"
    and chk: "checkCommand env ''sudo''
           (log Debug ''Permission denied, retrying with sudo...'' s2) = (True, s4)"
    and second: "spawnAsync env ''sudo'' (''-n'' # command # cmdArgs) with_logger s4 =
           (Inl sudoError, s5)"
    and pw: "requiresPassword sudoError"
  shows "execSudo env command cmdArgs s = (Inl noninteractive_unavailable, s5) \<and>
         spawns (trace s5) =
           spawns (trace s) @
           [(command, cmdArgs, Pipe), (''which'', [''sudo''], Pipe),
            (''sudo'', ''-n'' # command # cmdArgs, Pipe)]"
proof -
  have t2: "spawns (trace s2) = spawns (trace s) @ [(command, cmdArgs, Pipe)]"
    using spawnAsync_spawns[of env command cmdArgs with_logger
        "log Debug (''Executing: '' @ js_join '' '' (command # cmdArgs)) s"] first
    by (simp add: spawns_log stdio_of_with_logger)
  have t4: "spawns (trace s4) = spawns (trace s2) @ [(''which'', [''sudo''], Pipe)]"
    using checkCommand_spawns[of env "''sudo''"
        "log Debug ''Permission denied, retrying with sudo...'' s2"] chk nonwin
    by (simp add: spawns_log)
  have t5: "spawns (trace s5) = spawns (trace s4) @ [(''sudo'', ''-n'' # command # cmdArgs, Pipe)]"
    using spawnAsync_spawns[of env "''sudo''" "''-n'' # command # cmdArgs" with_logger s4] second
    by (simp add: stdio_of_with_logger)
  have "execSudo env command cmdArgs s = (Inl noninteractive_unavailable, s5)"
    using first pd nonwin chk second pw by (simp add: execSudo_def Let_def)
  with t2 t4 t5 show ?thesis by simp
qed

theorem execSudo_password_required_witness:
  "isTTY linux_host \<and>
   fst (execSudo linux_host ''cp'' [''a'', ''b''] start) = Inl noninteractive_unavailable \<and>
   spawns (trace (snd (execSudo linux_host ''cp'' [''a'', ''b''] start))) =
     [(''cp'', [''a'', ''b''], Pipe), (''which'', [''sudo''], Pipe),
      (''sudo'', [''-n'', ''cp'', ''a'', ''b''], Pipe)]"
proof -
  obtain e s2 where first: "spawnAsync linux_host ''cp'' [''a'', ''b''] with_logger
           (log Debug (''Executing: '' @ js_join '' '' (''cp'' # [''a'', ''b''])) start) = (Inl e, s2)"
    and e: "e = ProcessError (''Command failed: cp a b'' @ [newline] @ ''Exit code: 1'' @ [newline] @
            ''Stderr: cp: cannot create regular file: Permission denied'')"
    by (simp add: eval_defs show_nat.simps decimal_digits_def)
  have pd: "permission_denied linux_host e"
    unfolding e by (simp add: permission_denied_def newline_def)
  have nonwin: "platform linux_host \<noteq> ''win32''" by (simp add: linux_host_def)
  obtain s4 where chk: "checkCommand linux_host ''sudo''
           (log Debug ''Permission denied, retrying with sudo...'' s2) = (True, s4)"
    by (simp add: eval_defs split: prod.splits)
  obtain sudoError s5 where second:
      "spawnAsync linux_host ''sudo'' (''-n'' # ''cp'' # [''a'', ''b'']) with_logger s4 =
         (Inl sudoError, s5)"
    and se: "sudoError = ProcessError (''Command failed: sudo -n cp a b'' @ [newline] @
            ''Exit code: 1'' @ [newline] @ ''Stderr: sudo: a password is required'')"
    by (simp add: eval_defs show_nat.simps decimal_digits_def)
  have pw: "requiresPassword sudoError"
    unfolding se by (simp add: requiresPassword_def newline_def)
  have "isTTY linux_host" by (simp add: linux_host_def)
  with execSudo_password_required[OF nonwin first pd chk second pw] show ?thesis
    by (simp add: start_def)
qed

section \<open>Properties of the orchestrator\<close>

lemma entered_append: "entered (xs @ ys) = entered xs @ entered ys"
  by (induction xs rule: entered.induct) simp_all

lemma returned_append: "returned (xs @ ys) = returned xs @ returned ys"
  by (induction xs rule: returned.induct) simp_all

lemma thrown_append: "thrown (xs @ ys) = thrown xs @ thrown ys"
  by (induction xs rule: thrown.induct) simp_all

lemma awaited_append: "awaited (xs @ ys) = awaited xs @ awaited ys"
  by (induction xs rule: awaited.induct) simp_all

lemma run_stages_eq:
  "run_stages env ex p rs = run_list env (pipeline ex (needsInstall p)) rs"
  by (simp add: run_stages_def pipeline_def andThen_def split: prod.splits sum.splits)

lemma run_list_trace:
  "trace (snd (snd (run_list env calls (r, s)))) = trace s @ stage_events env calls r (world s)"
proof (induction calls arbitrary: r s)
  case Nil
  show ?case by simp
next
  case (Cons c calls)
  obtain ex st where c: "c = (ex, st)" by (cases c)
  obtain out w where st: "stage env ex st (world s) = (out, w)" by (cases "stage env ex st (world s)")
  show ?case
  proof (cases out)
    case (Inl e)
    with c st show ?thesis by (simp add: step_def andThen_def)
  next
    case (Inr u)
    with c st Cons.IH show ?thesis by (simp add: step_def andThen_def)
  qed
qed

lemma run_list_world_steps:
  "steps (fst (snd (run_list env calls (r, s)))) =
     steps r @ map step_name (returned (stage_events env calls r (world s)))"
proof (induction calls arbitrary: r s)
  case Nil
  show ?case by simp
next
  case (Cons c calls)
  obtain ex st where c: "c = (ex, st)" by (cases c)
  obtain out w where st: "stage env ex st (world s) = (out, w)" by (cases "stage env ex st (world s)")
  show ?case
  proof (cases out)
    case (Inl e)
    with c st show ?thesis by (simp add: step_def andThen_def)
  next
    case (Inr u)
    with c st Cons.IH show ?thesis
      by (cases st) (simp_all add: step_def andThen_def push_def)
  qed
qed

lemma returned_prefix:
  "prefix (returned (stage_events env calls r w)) (map snd calls)"
proof (induction calls arbitrary: r w)
  case Nil
  show ?case by simp
next
  case (Cons c calls)
  obtain ex st where c: "c = (ex, st)" by (cases c)
  show ?case using Cons.IH c
    by (auto split: prod.splits sum.splits)
qed

lemma thrown_subset:
  "set (thrown (stage_events env calls r w)) \<subseteq> set (map snd calls)"
proof (induction calls arbitrary: r w)
  case Nil
  show ?case by simp
next
  case (Cons c calls)
  obtain ex st where c: "c = (ex, st)" by (cases c)
  show ?case using Cons.IH c
    by (fastforce split: prod.splits sum.splits)
qed

lemma thrown_at_most_one:
  "length (thrown (stage_events env calls r w)) \<le> 1"
proof (induction calls arbitrary: r w)
  case Nil
  show ?case by simp
next
  case (Cons c calls)
  obtain ex st where c: "c = (ex, st)" by (cases c)
  show ?case using Cons.IH c
    by (auto split: prod.splits sum.splits)
qed

lemma thrown_not_returned:
  "distinct (map snd calls) \<Longrightarrow>
   set (thrown (stage_events env calls r w)) \<inter> set (returned (stage_events env calls r w)) = {}"
proof (induction calls arbitrary: r w)
  case Nil
  show ?case by simp
next
  case (Cons c calls)
  obtain ex st where c: "c = (ex, st)" by (cases c)
  obtain out w' where st: "stage env ex st w = (out, w')" by (cases "stage env ex st w")
  show ?case
  proof (cases out)
    case (Inl e)
    with c st show ?thesis by simp
  next
    case (Inr u)
    have "st \<notin> set (thrown (stage_events env calls (mark st r) w'))"
      using thrown_subset[of env calls "mark st r" w'] Cons.prems c by auto
    with Inr c st Cons.IH[of "mark st r" w'] Cons.prems show ?thesis by auto
  qed
qed

lemma run_list_outcome:
  "isl (fst (run_list env calls (r, s))) = (thrown (stage_events env calls r (world s)) \<noteq> [])"
proof (induction calls arbitrary: r s)
  case Nil
  show ?case by simp
next
  case (Cons c calls)
  obtain ex st where c: "c = (ex, st)" by (cases c)
  obtain out w where st: "stage env ex st (world s) = (out, w)" by (cases "stage env ex st (world s)")
  show ?case
  proof (cases out)
    case (Inl e)
    with c st show ?thesis by (simp add: step_def andThen_def)
  next
    case (Inr u)
    with c st Cons.IH show ?thesis by (simp add: step_def andThen_def)
  qed
qed

lemma flags_agree_mark: "flags_agree r \<Longrightarrow> flags_agree (mark st r)"
  by (cases st) (simp_all add: flags_agree_def push_def)

lemma run_list_flags:
  "flags_agree r \<Longrightarrow>
   flags_agree (fst (snd (run_list env calls (r, s)))) \<and>
   list_all flags_agree (awaited (stage_events env calls r (world s)))"
proof (induction calls arbitrary: r s)
  case Nil
  then show ?case by simp
next
  case (Cons c calls)
  obtain ex st where c: "c = (ex, st)" by (cases c)
  obtain out w where st: "stage env ex st (world s) = (out, w)" by (cases "stage env ex st (world s)")
  show ?case
  proof (cases out)
    case (Inl e)
    with c st Cons.prems show ?thesis by (simp add: step_def andThen_def)
  next
    case (Inr u)
    let ?s' = "s\<lparr>world := w, trace := trace s @ [Await r, StageCall ex st, StageReturn ex st]\<rparr>"
    from Cons.IH[of "mark st r" ?s', OF flags_agree_mark[OF Cons.prems]] Inr c st Cons.prems
    show ?thesis
      by (simp add: step_def andThen_def)
  qed
qed


lemma adapter_events_silent:
  "list_all adapter_event ev \<Longrightarrow>
   entered ev = [] \<and> returned ev = [] \<and> thrown ev = [] \<and> awaited ev = []"
proof (induction ev)
  case Nil
  show ?case by simp
next
  case (Cons e ev)
  then show ?case by (cases e) simp_all
qed

lemma adapter_verbose_logs: "list_all adapter_event (verbose_logs opts es)"
  by (induction opts es rule: verbose_logs.induct) simp_all

lemma spawnAsync_adapter:
  "\<exists>ev. trace (snd (spawnAsync env command args opts s)) = trace s @ ev \<and>
        list_all adapter_event ev"
proof -
  obtain outcome w where sp: "spawn env command args (stdio_of opts) (world s) = (outcome, w)"
    by (cases "spawn env command args (stdio_of opts) (world s)")
  show ?thesis
  proof (cases outcome)
    case (ErrorEvent msg)
    with sp show ?thesis
      by (simp add: spawnAsync_error_event)
  next
    case (CloseEvent chunks c)
    with sp show ?thesis
      by (simp add: spawnAsync_close_event on_close_def log_def adapter_verbose_logs)
  qed
qed

lemma checkCommand_adapter:
  "\<exists>ev. trace (snd (checkCommand env c s)) = trace s @ ev \<and> list_all adapter_event ev"
proof -
  let ?cmd = "if platform env = ''win32'' then ''where'' else ''which''"
  have "snd (checkCommand env c s) = snd (spawnAsync env ?cmd [c] with_logger s)"
    by (simp add: checkCommand_def Let_def split: prod.splits sum.splits)
  then show ?thesis
    using spawnAsync_adapter[of env ?cmd "[c]" with_logger s] by simp
qed

lemma hasSudoAccess_adapter:
  "\<exists>ev. trace (snd (hasSudoAccess env s)) = trace s @ ev \<and> list_all adapter_event ev"
proof -
  obtain avail s1 where chk: "checkCommand env ''sudo'' s = (avail, s1)"
    by (cases "checkCommand env ''sudo'' s")
  obtain ev1 where ev1: "trace s1 = trace s @ ev1" "list_all adapter_event ev1"
    using checkCommand_adapter[of env "''sudo''" s] chk by auto
  obtain ev2 where ev2:
    "trace (snd (spawnAsync env ''sudo'' [''-n'', ''-v''] with_logger s1)) = trace s1 @ ev2"
    "list_all adapter_event ev2"
    using spawnAsync_adapter[of env "''sudo''" "[''-n'', ''-v'']" with_logger s1] by auto
  have "snd (hasSudoAccess env s) = s \<or> snd (hasSudoAccess env s) = s1 \<or>
        snd (hasSudoAccess env s) = snd (spawnAsync env ''sudo'' [''-n'', ''-v''] with_logger s1)"
    using chk by (auto simp: hasSudoAccess_def split: prod.splits sum.splits)
  then show ?thesis
  proof (elim disjE)
    assume "snd (hasSudoAccess env s) = s"
    then show ?thesis by simp
  next
    assume "snd (hasSudoAccess env s) = s1"
    with ev1 show ?thesis by simp
  next
    assume "snd (hasSudoAccess env s) = snd (spawnAsync env ''sudo'' [''-n'', ''-v''] with_logger s1)"
    with ev1 ev2 show ?thesis by simp
  qed
qed

lemma step_name_inj: "step_name a = step_name b \<Longrightarrow> a = b"
  by (cases a; cases b) simp_all

lemma stage_names_pipeline: "map step_name (map snd (pipeline ex b)) = stage_names b"
  by (simp add: pipeline_def stage_names_def)

lemma distinct_pipeline: "distinct (map snd (pipeline ex b))"
  by (simp add: pipeline_def)

lemma distinct_stage_names: "distinct (stage_names b)"
  by (simp add: stage_names_def)

lemma prefix_distinct: "prefix xs ys \<Longrightarrow> distinct ys \<Longrightarrow> distinct xs"
  by (auto simp: prefix_def)

lemma awaited_entered_length:
  "length (awaited (stage_events env calls r w)) = length (entered (stage_events env calls r w))"
proof (induction calls arbitrary: r w)
  case Nil
  show ?case by simp
next
  case (Cons c calls)
  obtain ex st where c: "c = (ex, st)" by (cases c)
  show ?case using Cons.IH c
    by (auto split: prod.splits sum.splits)
qed

lemma settle_parts:
  "fst (snd (settle (out, r, s))) = (if isl out then r else r\<lparr>success := Some True\<rparr>)"
  "snd (snd (settle (out, r, s))) = s"
  "isl (fst (settle (out, r, s))) = isl out"
  "\<not> isl out \<Longrightarrow> fst (settle (out, r, s)) = Inr (r\<lparr>success := Some True\<rparr>)"
  "isl out \<Longrightarrow> fst (settle (out, r, s)) = Inl (ProcessError (''Execution failed: '' @ message (projl out)))"
  by (cases out; simp add: settle_def)+

lemma flags_agree_success: "flags_agree (r\<lparr>success := v\<rparr>) = flags_agree r"
  by (simp add: flags_agree_def)

text \<open>What a branch leaves behind, started on the empty result.\<close>

lemma branch_facts:
  assumes run: "settle (run_stages env ex p (initial_result, s1)) = (outcome, r, s)"
  defines "ev \<equiv> stage_events env (pipeline ex (needsInstall p)) initial_result (world s1)"
  shows "trace s = trace s1 @ ev"
    and "steps r = map step_name (returned ev)"
    and "prefix (steps r) (stage_names (needsInstall p))"
    and "distinct (steps r)"
    and "length (thrown ev) \<le> 1"
    and "\<forall>st \<in> set (thrown ev). step_name st \<notin> set (steps r)"
    and "isl outcome = (thrown ev \<noteq> [])"
    and "\<not> isl outcome \<Longrightarrow> outcome = Inr r"
    and "flags_agree r"
    and "list_all flags_agree (awaited ev)"
    and "length (awaited ev) = length (entered ev)"
proof -
  let ?calls = "pipeline ex (needsInstall p)"
  obtain out r1 s2 where rl: "run_list env ?calls (initial_result, s1) = (out, r1, s2)"
    by (cases "run_list env ?calls (initial_result, s1)")
  have st: "settle (out, r1, s2) = (outcome, r, s)"
    using run rl by (simp add: run_stages_eq)
  have s: "s = s2" using settle_parts(2)[of out r1 s2] st by simp
  have r: "r = (if isl out then r1 else r1\<lparr>success := Some True\<rparr>)"
    using settle_parts(1)[of out r1 s2] st by simp
  have o: "isl outcome = isl out" using settle_parts(3)[of out r1 s2] st by simp
  show "trace s = trace s1 @ ev"
    using run_list_trace[of env ?calls initial_result s1] rl s by (simp add: ev_def)
  have steps1: "steps r1 = map step_name (returned ev)"
    using run_list_world_steps[of env ?calls initial_result s1] rl
    by (simp add: ev_def initial_result_def)
  show steps: "steps r = map step_name (returned ev)"
    using steps1 r by simp
  have "prefix (map step_name (returned ev)) (map step_name (map snd ?calls))"
    unfolding ev_def by (rule map_mono_prefix) (rule returned_prefix)
  then show pre: "prefix (steps r) (stage_names (needsInstall p))"
    using steps stage_names_pipeline[of ex "needsInstall p"] by (simp del: map_map)
  show "distinct (steps r)"
    using pre distinct_stage_names by (rule prefix_distinct)
  show "length (thrown ev) \<le> 1"
    unfolding ev_def by (rule thrown_at_most_one)
  have "set (thrown ev) \<inter> set (returned ev) = {}"
    unfolding ev_def by (rule thrown_not_returned) (rule distinct_pipeline)
  then show "\<forall>st \<in> set (thrown ev). step_name st \<notin> set (steps r)"
    using steps step_name_inj by auto
  show "isl outcome = (thrown ev \<noteq> [])"
    using run_list_outcome[of env ?calls initial_result s1] rl o by (simp add: ev_def)
  show "outcome = Inr r" if "\<not> isl outcome"
    using settle_parts(4)[of out r1 s2] st that o r by simp
  have fa: "flags_agree initial_result"
    by (simp add: flags_agree_def initial_result_def)
  have "flags_agree r1"
    using run_list_flags[OF fa, of env ?calls s1] rl by simp
  then show "flags_agree r" using r by (simp add: flags_agree_success)
  show "list_all flags_agree (awaited ev)"
    using run_list_flags[OF fa, of env ?calls s1] by (simp add: ev_def)
  show "length (awaited ev) = length (entered ev)"
    unfolding ev_def by (rule awaited_entered_length)
qed


lemma execute_other:
  assumes "os p \<noteq> ''linux''" and "os p \<noteq> ''windows''"
  shows "execute env p s0 =
           (Inr (initial_result\<lparr>success := Some True\<rparr>), initial_result\<lparr>success := Some True\<rparr>, s0)"
  using assms by (simp add: execute_def settle_def)

lemma execute_windows:
  assumes "os p = ''windows''"
  shows "execute env p s0 = settle (run_stages env WindowsExecutor p (initial_result, s0))"
  using assms by (simp add: execute_def)

lemma execute_linux:
  assumes "os p = ''linux''"
    and "hasSudoAccess env (s0\<lparr>trace := trace s0 @ [Await initial_result]\<rparr>) = (access, s1)"
  shows "execute env p s0 =
           (if access then settle (run_stages env LinuxExecutor p (initial_result, s1))
            else (Inl (ProcessError (''Execution failed: '' @ message insufficient_privileges)),
                  initial_result, s1))"
  using assms by (simp add: execute_def settle_def)

lemma probe_events:
  assumes "hasSudoAccess env (s0\<lparr>trace := trace s0 @ [Await initial_result]\<rparr>) = (access, s1)"
  obtains probe where "trace s1 = trace s0 @ [Await initial_result] @ probe"
    and "list_all adapter_event probe"
  using hasSudoAccess_adapter[of env "s0\<lparr>trace := trace s0 @ [Await initial_result]\<rparr>"] assms
  by auto

lemma installed_needs_install:
  assumes "prefix xs (stage_names b)" and "''installed'' \<in> set xs"
  shows b
proof (rule ccontr)
  assume "\<not> b"
  then have "''installed'' \<notin> set (stage_names b)" by (simp add: stage_names_def)
  with set_mono_prefix[OF assms(1)] assms(2) show False by blast
qed

lemmas run_defs = execute_def settle_def run_stages_def andThen_def step_def hasSudoAccess_def
  canSudo_def scripted_stage_def bare_host_def initial_result_def push_def insufficient_privileges_def

text \<open>
  Claim C2. For every run of \<open>execute\<close>, with \<open>r\<close> the value of \<open>result\<close> when the run
  ends (returned on success, as built when it throws): \<open>steps r\<close> is a prefix of
  \<open>installed, configured, keys-setup, service-started\<close> with \<open>installed\<close> left out when
  \<open>needsInstall\<close> is false, so \<open>installed\<close> is in it only when \<open>needsInstall\<close> holds; it
  has no name twice; it is exactly the names of the stage functions that returned during
  the run, in the order they returned; at most one stage function threw, and its name is
  not in the list; and a run that does not throw returns \<open>r\<close> itself.
\<close>

theorem execute_steps:
  assumes run: "execute env p s0 = (outcome, r, s)"
  shows "\<exists>new. trace s = trace s0 @ new \<and>
           steps r = map step_name (returned new) \<and>
           prefix (steps r) (stage_names (needsInstall p)) \<and>
           distinct (steps r) \<and>
           (''installed'' \<in> set (steps r) \<longrightarrow> needsInstall p) \<and>
           length (thrown new) \<le> 1 \<and>
           (\<forall>st \<in> set (thrown new). step_name st \<notin> set (steps r)) \<and>
           (thrown new \<noteq> [] \<longrightarrow> isl outcome) \<and>
           (\<not> isl outcome \<longrightarrow> outcome = Inr r)"
proof -
  consider (linux) "os p = ''linux''" | (windows) "os p = ''windows''"
    | (other) "os p \<noteq> ''linux''" "os p \<noteq> ''windows''" by blast
  then show ?thesis
  proof cases
    case other
    from execute_other[OF other, of env s0] run
    have "outcome = Inr r" "steps r = []" "s = s0"
      by (auto simp: initial_result_def)
    then show ?thesis
      by (intro exI[of _ "[]"]) simp
  next
    case windows
    let ?ev = "stage_events env (pipeline WindowsExecutor (needsInstall p)) initial_result (world s0)"
    have st: "settle (run_stages env WindowsExecutor p (initial_result, s0)) = (outcome, r, s)"
      using execute_windows[OF windows, of env s0] run by simp
    note f = branch_facts[OF st]
    show ?thesis
    proof (intro exI[of _ ?ev] conjI impI)
      show "trace s = trace s0 @ ?ev" by (rule f(1))
      show "steps r = map step_name (returned ?ev)" by (rule f(2))
      show "prefix (steps r) (stage_names (needsInstall p))" by (rule f(3))
      show "distinct (steps r)" by (rule f(4))
      show "needsInstall p" if "''installed'' \<in> set (steps r)"
        using f(3) that by (rule installed_needs_install)
      show "length (thrown ?ev) \<le> 1" by (rule f(5))
      show "\<forall>st \<in> set (thrown ?ev). step_name st \<notin> set (steps r)" by (rule f(6))
      show "isl outcome" if "thrown ?ev \<noteq> []" using f(7) that by simp
      show "outcome = Inr r" if "\<not> isl outcome" using that by (rule f(8))
    qed
  next
    case linux
    obtain access s1 where
      hs: "hasSudoAccess env (s0\<lparr>trace := trace s0 @ [Await initial_result]\<rparr>) = (access, s1)"
      by (cases "hasSudoAccess env (s0\<lparr>trace := trace s0 @ [Await initial_result]\<rparr>)")
    obtain probe where probe: "trace s1 = trace s0 @ [Await initial_result] @ probe"
      and ad: "list_all adapter_event probe"
      using probe_events[OF hs] by blast
    note quiet = adapter_events_silent[OF ad]
    show ?thesis
    proof (cases access)
      case False
      let ?new = "[Await initial_result] @ probe"
      from execute_linux[OF linux hs] run False
      have "isl outcome" "steps r = []" "s = s1" by (auto simp: initial_result_def)
      then show ?thesis
        using probe quiet by (intro exI[of _ ?new]) simp
    next
      case True
      let ?ev = "stage_events env (pipeline LinuxExecutor (needsInstall p)) initial_result (world s1)"
      let ?new = "[Await initial_result] @ probe @ ?ev"
      have st: "settle (run_stages env LinuxExecutor p (initial_result, s1)) = (outcome, r, s)"
        using execute_linux[OF linux hs] run True by simp
      note f = branch_facts[OF st]
      have ret: "returned ?new = returned ?ev" and thr: "thrown ?new = thrown ?ev"
        using quiet by (simp_all add: returned_append thrown_append)
      show ?thesis
      proof (intro exI[of _ ?new] conjI impI)
        show "trace s = trace s0 @ ?new" using f(1) probe by simp
        show "steps r = map step_name (returned ?new)" unfolding ret by (rule f(2))
        show "prefix (steps r) (stage_names (needsInstall p))" by (rule f(3))
        show "distinct (steps r)" by (rule f(4))
        show "needsInstall p" if "''installed'' \<in> set (steps r)"
          using f(3) that by (rule installed_needs_install)
        show "length (thrown ?new) \<le> 1" unfolding thr by (rule f(5))
        show "\<forall>st \<in> set (thrown ?new). step_name st \<notin> set (steps r)"
          unfolding thr by (rule f(6))
        show "isl outcome" if "thrown ?new \<noteq> []" using f(7) that unfolding thr by simp
        show "outcome = Inr r" if "\<not> isl outcome" using that by (rule f(8))
      qed
    qed
  qed
qed


theorem execute_steps_witness:
  "execute windows_host \<lparr>os = ''windows'', needsInstall = False, plan_steps = []\<rparr>
       \<lparr>world = 1, trace = []\<rparr> =
     (Inl (ProcessError
        ''Execution failed: Failed to start SSH service: SSH service failed to start''),
      \<lparr>installed = False, configured = True, keysSetup = True, serviceStarted = False,
       steps = [''configured'', ''keys-setup''], success = None\<rparr>,
      \<lparr>world = 5,
       trace =
         [Await initial_result,
          StageCall WindowsExecutor ConfigureSSH, StageReturn WindowsExecutor ConfigureSSH,
          Await (mark ConfigureSSH initial_result),
          StageCall CommonExecutor SetupAuthorizedKeys, StageReturn CommonExecutor SetupAuthorizedKeys,
          Await (mark SetupAuthorizedKeys (mark ConfigureSSH initial_result)),
          StageCall WindowsExecutor StartSSH, StageThrow WindowsExecutor StartSSH]\<rparr>) \<and>
   prefix [''configured'', ''keys-setup''] (stage_names False) \<and>
   ''service-started'' \<notin> set [''configured'', ''keys-setup'']"
proof -
  have full: "execute windows_host \<lparr>os = ''windows'', needsInstall = False, plan_steps = []\<rparr>
       \<lparr>world = 1, trace = []\<rparr> =
     (Inl (ProcessError
        ''Execution failed: Failed to start SSH service: SSH service failed to start''),
      \<lparr>installed = False, configured = True, keysSetup = True, serviceStarted = False,
       steps = [''configured'', ''keys-setup''], success = None\<rparr>,
      \<lparr>world = 5,
       trace =
         [Await initial_result,
          StageCall WindowsExecutor ConfigureSSH, StageReturn WindowsExecutor ConfigureSSH,
          Await (mark ConfigureSSH initial_result),
          StageCall CommonExecutor SetupAuthorizedKeys, StageReturn CommonExecutor SetupAuthorizedKeys,
          Await (mark SetupAuthorizedKeys (mark ConfigureSSH initial_result)),
          StageCall WindowsExecutor StartSSH, StageThrow WindowsExecutor StartSSH]\<rparr>)"
    by (simp add: run_defs windows_host_def)
  from execute_steps[OF full] obtain new where
      tr: "trace (\<lparr>world = 5,
       trace =
         [Await initial_result,
          StageCall WindowsExecutor ConfigureSSH, StageReturn WindowsExecutor ConfigureSSH,
          Await (mark ConfigureSSH initial_result),
          StageCall CommonExecutor SetupAuthorizedKeys, StageReturn CommonExecutor SetupAuthorizedKeys,
          Await (mark SetupAuthorizedKeys (mark ConfigureSSH initial_result)),
          StageCall WindowsExecutor StartSSH, StageThrow WindowsExecutor StartSSH]\<rparr> :: nat state) = trace (\<lparr>world = 1, trace = []\<rparr> :: nat state) @ new"
    and pre: "prefix (steps \<lparr>installed = False, configured = True, keysSetup = True, serviceStarted = False,
       steps = [''configured'', ''keys-setup''], success = None\<rparr>) (stage_names (needsInstall \<lparr>os = ''windows'', needsInstall = False, plan_steps = []\<rparr>))"
    and thr: "\<forall>st \<in> set (thrown new). step_name st \<notin> set (steps \<lparr>installed = False, configured = True, keysSetup = True, serviceStarted = False,
       steps = [''configured'', ''keys-setup''], success = None\<rparr>)"
    by blast
  from tr[symmetric] have "thrown new = [StartSSH]" by simp
  with thr have "''service-started'' \<notin> set [''configured'', ''keys-setup'']" by simp
  moreover from pre have "prefix [''configured'', ''keys-setup''] (stage_names False)" by simp
  ultimately show ?thesis using full by simp
qed

text \<open>
  Claim C4. On a plan with \<open>os = linux\<close>, \<open>execute\<close> first awaits \<open>hasSudoAccess\<close>:
  the events of the probe (commands and log lines only, no stage call) come before
  everything else the run appends. When the probe answers false, nothing follows them:
  \<open>execute\<close> throws "Execution failed: Insufficient privileges ...", no stage function
  has been entered, and \<open>result\<close> is still the initial one, with \<open>steps\<close> empty.
\<close>

theorem execute_linux_probe_first:
  assumes linux: "os p = ''linux''"
    and hs: "hasSudoAccess env (s0\<lparr>trace := trace s0 @ [Await initial_result]\<rparr>) = (access, s1)"
  shows "\<exists>probe later.
           trace s1 = trace s0 @ [Await initial_result] @ probe \<and>
           entered ([Await initial_result] @ probe) = [] \<and>
           trace (snd (snd (execute env p s0))) = trace s1 @ later \<and>
           (\<not> access \<longrightarrow>
              later = [] \<and>
              execute env p s0 =
                (Inl (ProcessError (''Execution failed: '' @ message insufficient_privileges)),
                 initial_result, s1) \<and>
              steps (fst (snd (execute env p s0))) = [] \<and>
              entered (trace (snd (snd (execute env p s0)))) = entered (trace s0))"
proof -
  obtain probe where probe: "trace s1 = trace s0 @ [Await initial_result] @ probe"
    and ad: "list_all adapter_event probe"
    using probe_events[OF hs] by blast
  note quiet = adapter_events_silent[OF ad]
  have e0: "entered ([Await initial_result] @ probe) = []" using quiet by simp
  show ?thesis
  proof (cases access)
    case False
    have ex: "execute env p s0 =
                (Inl (ProcessError (''Execution failed: '' @ message insufficient_privileges)),
                 initial_result, s1)"
      using execute_linux[OF linux hs] False by simp
    have "entered (trace s1) = entered (trace s0)"
      using probe quiet by (simp add: entered_append)
    with ex probe e0 False show ?thesis
      by (intro exI[of _ probe] exI[of _ "[]"]) (simp add: initial_result_def)
  next
    case True
    let ?ev = "stage_events env (pipeline LinuxExecutor (needsInstall p)) initial_result (world s1)"
    obtain outcome r s where st:
      "settle (run_stages env LinuxExecutor p (initial_result, s1)) = (outcome, r, s)"
      by (cases "settle (run_stages env LinuxExecutor p (initial_result, s1))") auto
    have "execute env p s0 = (outcome, r, s)"
      using execute_linux[OF linux hs] True st by simp
    with branch_facts(1)[OF st] probe e0 True show ?thesis
      by (intro exI[of _ probe] exI[of _ ?ev]) simp
  qed
qed

theorem execute_linux_probe_first_witness:
  "hasSudoAccess bare_host (start\<lparr>trace := trace start @ [Await initial_result]\<rparr>) =
     (False,
      \<lparr>world = 1,
       trace = [Await initial_result, Log Debug ''Spawning: which sudo'',
                Spawn ''which'' [''sudo''] Pipe]\<rparr>) \<and>
   execute bare_host \<lparr>os = ''linux'', needsInstall = True, plan_steps = []\<rparr> start =
     (Inl (ProcessError ''Execution failed: Insufficient privileges to configure SSH. Run as root or configure passwordless sudo.''),
      initial_result,
      \<lparr>world = 1,
       trace = [Await initial_result, Log Debug ''Spawning: which sudo'',
                Spawn ''which'' [''sudo''] Pipe]\<rparr>)"
proof -
  let ?p = "\<lparr>os = ''linux'', needsInstall = True, plan_steps = []\<rparr>"
  let ?s1 = "\<lparr>world = 1 :: nat,
       trace = [Await initial_result, Log Debug ''Spawning: which sudo'',
                Spawn ''which'' [''sudo''] Pipe]\<rparr>"
  have hs: "hasSudoAccess bare_host (start\<lparr>trace := trace start @ [Await initial_result]\<rparr>) =
     (False, ?s1)"
    by (simp add: hasSudoAccess_def canSudo_def bare_host_def checkCommand_def spawnAsync_def
        log_def stdio_of_def with_logger_def default_options_def start_def Let_def)
  have linux: "os ?p = ''linux''" by simp
  from execute_linux_probe_first[OF linux hs] have
    "execute bare_host ?p start =
       (Inl (ProcessError (''Execution failed: '' @ message insufficient_privileges)),
        initial_result, ?s1)"
    by blast
  with hs show ?thesis
    by (simp add: insufficient_privileges_def)
qed

text \<open>
  Claim C9. A plan whose \<open>os\<close> is neither \<open>linux\<close> nor \<open>windows\<close>: \<open>execute\<close> takes
  neither branch, so it leaves the state as it was (no probe, no stage call) and returns
  a result with every flag false, no steps and \<open>success = true\<close>.
\<close>

theorem execute_unknown_os:
  assumes "os p \<noteq> ''linux''" and "os p \<noteq> ''windows''"
  shows "execute env p s0 =
           (Inr \<lparr>installed = False, configured = False, keysSetup = False, serviceStarted = False,
                 steps = [], success = Some True\<rparr>,
            \<lparr>installed = False, configured = False, keysSetup = False, serviceStarted = False,
                 steps = [], success = Some True\<rparr>,
            s0)"
  using assms by (simp add: execute_def settle_def initial_result_def)

theorem execute_unknown_os_witness:
  "execute linux_host \<lparr>os = ''darwin'', needsInstall = True, plan_steps = [''install'']\<rparr> start =
           (Inr \<lparr>installed = False, configured = False, keysSetup = False, serviceStarted = False,
                 steps = [], success = Some True\<rparr>,
            \<lparr>installed = False, configured = False, keysSetup = False, serviceStarted = False,
                 steps = [], success = Some True\<rparr>,
            start)"
  using execute_unknown_os[of "\<lparr>os = ''darwin'', needsInstall = True, plan_steps = [''install'']\<rparr>"
      linux_host start]
  by simp

lemma mark_two_statements: "mark st r = push (step_name st) (set_flag st r)"
  by (cases st) simp_all

lemma result_states_nonempty: "result_states r es \<noteq> []"
  by (induction r es rule: result_states.induct) simp_all

lemma result_states_last:
  "last (result_states r (stage_events env calls r (world s))) =
     fst (snd (run_list env calls (r, s)))"
proof (induction calls arbitrary: r s)
  case Nil
  show ?case by simp
next
  case (Cons c calls)
  obtain ex st where c: "c = (ex, st)" by (cases c)
  obtain out w where st: "stage env ex st (world s) = (out, w)" by (cases "stage env ex st (world s)")
  show ?case
  proof (cases out)
    case (Inl e)
    with c st show ?thesis by (simp add: step_def andThen_def)
  next
    case (Inr u)
    let ?s' = "s\<lparr>world := w, trace := trace s @ [Await r, StageCall ex st, StageReturn ex st]\<rparr>"
    from Cons.IH[of "mark st r" ?s'] Inr c st show ?thesis
      by (simp add: step_def andThen_def mark_two_statements result_states_nonempty)
  qed
qed

lemma result_states_awaited:
  "set (awaited (stage_events env calls r w)) \<subseteq> set (result_states r (stage_events env calls r w))"
proof (induction calls arbitrary: r w)
  case Nil
  show ?case by simp
next
  case (Cons c calls)
  obtain ex st where c: "c = (ex, st)" by (cases c)
  obtain out w' where st: "stage env ex st w = (out, w')" by (cases "stage env ex st w")
  show ?case
  proof (cases out)
    case (Inl e)
    with c st show ?thesis by simp
  next
    case (Inr u)
    from Cons.IH[of "mark st r" w'] Inr c st show ?thesis
      by (auto simp: mark_two_statements)
  qed
qed

text \<open>
  Claim C10, as stated. The claim speaks of every point during a run. After a stage
  function has returned, \<open>execute\<close> first sets the flag and then pushes the step name:
  between the two statements the flag is true and the name is not in \<open>steps\<close>. In the
  run of a Linux plan with \<open>needsInstall\<close> on the scripted host, the second value
  \<open>result\<close> takes has \<open>installed\<close> true and \<open>steps\<close> empty.
\<close>

theorem execute_flags_counterexample:
  "result_states initial_result
     (trace (snd (snd (execute linux_host
        \<lparr>os = ''linux'', needsInstall = True, plan_steps = []\<rparr> start)))) =
     [initial_result,
      initial_result\<lparr>installed := True\<rparr>,
      mark InstallSSH initial_result,
      (mark InstallSSH initial_result)\<lparr>configured := True\<rparr>,
      mark ConfigureSSH (mark InstallSSH initial_result),
      (mark ConfigureSSH (mark InstallSSH initial_result))\<lparr>keysSetup := True\<rparr>,
      mark SetupAuthorizedKeys (mark ConfigureSSH (mark InstallSSH initial_result)),
      (mark SetupAuthorizedKeys (mark ConfigureSSH (mark InstallSSH initial_result)))
        \<lparr>serviceStarted := True\<rparr>,
      mark StartSSH (mark SetupAuthorizedKeys (mark ConfigureSSH (mark InstallSSH initial_result)))] \<and>
   installed (initial_result\<lparr>installed := True\<rparr>) \<and>
   ''installed'' \<notin> set (steps (initial_result\<lparr>installed := True\<rparr>)) \<and>
   \<not> flags_agree (initial_result\<lparr>installed := True\<rparr>) \<and>
   \<not> list_all flags_agree
       (result_states initial_result
          (trace (snd (snd (execute linux_host
             \<lparr>os = ''linux'', needsInstall = True, plan_steps = []\<rparr> start)))))"
  by (simp add: run_defs eval_defs flags_agree_def)

text \<open>
  Claim C10, amended. The flags and the step names agree at every \<open>await\<close> of
  \<open>execute\<close> (the trace holds the value of \<open>result\<close> at each, and every stage call has
  one), when the run ends, and in the returned value.
\<close>

theorem execute_flags:
  assumes run: "execute env p s0 = (outcome, r, s)"
  shows "\<exists>new. trace s = trace s0 @ new \<and>
           list_all flags_agree (awaited new) \<and>
           length (entered new) \<le> length (awaited new) \<and>
           flags_agree r \<and>
           (case outcome of Inr returned_result \<Rightarrow> flags_agree returned_result | Inl e \<Rightarrow> True)"
proof -
  have fa: "flags_agree initial_result"
    by (simp add: flags_agree_def initial_result_def)
  have ret: "case outcome of Inr x \<Rightarrow> flags_agree x | Inl e \<Rightarrow> True"
    if "\<not> isl outcome \<Longrightarrow> outcome = Inr r" and "flags_agree r"
    using that by (cases outcome) auto
  consider (linux) "os p = ''linux''" | (windows) "os p = ''windows''"
    | (other) "os p \<noteq> ''linux''" "os p \<noteq> ''windows''" by blast
  then show ?thesis
  proof cases
    case other
    from execute_other[OF other, of env s0] run
    have "outcome = Inr r" "r = initial_result\<lparr>success := Some True\<rparr>" "s = s0"
      by auto
    then show ?thesis
      using fa by (intro exI[of _ "[]"]) (simp add: flags_agree_success)
  next
    case windows
    let ?ev = "stage_events env (pipeline WindowsExecutor (needsInstall p)) initial_result (world s0)"
    have st: "settle (run_stages env WindowsExecutor p (initial_result, s0)) = (outcome, r, s)"
      using execute_windows[OF windows, of env s0] run by simp
    note f = branch_facts[OF st]
    show ?thesis
    proof (intro exI[of _ ?ev] conjI)
      show "trace s = trace s0 @ ?ev" by (rule f(1))
      show "list_all flags_agree (awaited ?ev)" by (rule f(10))
      show "length (entered ?ev) \<le> length (awaited ?ev)" using f(11) by simp
      show "flags_agree r" by (rule f(9))
      show "case outcome of Inr x \<Rightarrow> flags_agree x | Inl e \<Rightarrow> True"
        using f(8) f(9) by (rule ret)
    qed
  next
    case linux
    obtain access s1 where
      hs: "hasSudoAccess env (s0\<lparr>trace := trace s0 @ [Await initial_result]\<rparr>) = (access, s1)"
      by (cases "hasSudoAccess env (s0\<lparr>trace := trace s0 @ [Await initial_result]\<rparr>)")
    obtain probe where probe: "trace s1 = trace s0 @ [Await initial_result] @ probe"
      and ad: "list_all adapter_event probe"
      using probe_events[OF hs] by blast
    note quiet = adapter_events_silent[OF ad]
    show ?thesis
    proof (cases access)
      case False
      let ?new = "[Await initial_result] @ probe"
      from execute_linux[OF linux hs] run False
      have "isl outcome" "r = initial_result" "s = s1" by auto
      then show ?thesis
        using probe quiet fa by (intro exI[of _ ?new]) (auto simp: isl_def)
    next
      case True
      let ?ev = "stage_events env (pipeline LinuxExecutor (needsInstall p)) initial_result (world s1)"
      let ?new = "[Await initial_result] @ probe @ ?ev"
      have st: "settle (run_stages env LinuxExecutor p (initial_result, s1)) = (outcome, r, s)"
        using execute_linux[OF linux hs] run True by simp
      note f = branch_facts[OF st]
      have aw: "awaited ?new = initial_result # awaited ?ev" and en: "entered ?new = entered ?ev"
        using quiet by (simp_all add: awaited_append entered_append)
      show ?thesis
      proof (intro exI[of _ ?new] conjI)
        show "trace s = trace s0 @ ?new" using f(1) probe by simp
        show "list_all flags_agree (awaited ?new)" unfolding aw using fa f(10) by simp
        show "length (entered ?new) \<le> length (awaited ?new)" unfolding aw en using f(11) by simp
        show "flags_agree r" by (rule f(9))
        show "case outcome of Inr x \<Rightarrow> flags_agree x | Inl e \<Rightarrow> True"
          using f(8) f(9) by (rule ret)
      qed
    qed
  qed
qed

theorem execute_flags_witness:
  "fst (execute linux_host \<lparr>os = ''linux'', needsInstall = True, plan_steps = []\<rparr> start) =
     Inr \<lparr>installed = True, configured = True, keysSetup = True, serviceStarted = True,
          steps = [''installed'', ''configured'', ''keys-setup'', ''service-started''],
          success = Some True\<rparr> \<and>
   awaited (trace (snd (snd
     (execute linux_host \<lparr>os = ''linux'', needsInstall = True, plan_steps = []\<rparr> start)))) =
     [initial_result,
      initial_result,
      mark InstallSSH initial_result,
      mark ConfigureSSH (mark InstallSSH initial_result),
      mark SetupAuthorizedKeys (mark ConfigureSSH (mark InstallSSH initial_result))] \<and>
   list_all flags_agree (awaited (trace (snd (snd
     (execute linux_host \<lparr>os = ''linux'', needsInstall = True, plan_steps = []\<rparr> start)))))"
proof -
  let ?p = "\<lparr>os = ''linux'', needsInstall = True, plan_steps = []\<rparr>"
  obtain outcome r s where run: "execute linux_host ?p start = (outcome, r, s)"
    and out: "outcome = Inr \<lparr>installed = True, configured = True, keysSetup = True, serviceStarted = True,
          steps = [''installed'', ''configured'', ''keys-setup'', ''service-started''],
          success = Some True\<rparr>"
    and aw: "awaited (trace s) = [initial_result,
      initial_result,
      mark InstallSSH initial_result,
      mark ConfigureSSH (mark InstallSSH initial_result),
      mark SetupAuthorizedKeys (mark ConfigureSSH (mark InstallSSH initial_result))]"
    by (simp add: run_defs eval_defs)
  have t0: "trace start = []" by (simp add: start_def)
  from execute_flags[OF run] run out aw t0 show ?thesis by auto
qed


section \<open>Properties of the configuration document\<close>

lemma js_split_nonempty: "js_split sep s \<noteq> []"
  by (induction s) simp_all

lemma js_split_append_sep:
  "js_split sep (a @ sep # b) = js_split sep a @ js_split sep b"
proof (induction a)
  case Nil
  show ?case by simp
next
  case (Cons c a)
  show ?case
  proof (cases "c = sep")
    case True
    with Cons show ?thesis by simp
  next
    case False
    have "js_split sep a \<noteq> []" by (rule js_split_nonempty)
    then obtain p ps where "js_split sep a = p # ps" by (cases "js_split sep a") auto
    with False Cons show ?thesis by simp
  qed
qed

lemma js_split_no_sep: "sep \<notin> set u \<Longrightarrow> js_split sep u = [u]"
  by (induction u) auto

lemma js_split_all_sep: "set u \<subseteq> {sep} \<Longrightarrow> js_split sep u = replicate (Suc (length u)) []"
  by (induction u) simp_all

lemma dropWhile_all: "\<forall>x \<in> set u. P x \<Longrightarrow> dropWhile P u = []"
  by (induction u) auto

lemma js_trim_spaces: "set u \<subseteq> {CHR '' ''} \<Longrightarrow> js_trim u = []"
proof -
  assume "set u \<subseteq> {CHR '' ''}"
  then have "\<forall>c \<in> set u. js_whitespace c" by (auto simp: js_whitespace_def)
  then have d: "dropWhile js_whitespace u = []" by (rule dropWhile_all)
  show ?thesis unfolding js_trim_def d by simp
qed

lemma js_trim_Nil: "js_trim [] = []"
  by (simp add: js_trim_def)

lemma filter_split_entry:
  assumes "CHR '' '' \<notin> set u \<or> set u \<subseteq> {CHR '' ''}"
  shows "filter (\<lambda>u. truthy (js_trim u)) (js_split CHR '' '' u) = filter (\<lambda>u. truthy (js_trim u)) [u]"
  using assms
proof
  assume "CHR '' '' \<notin> set u"
  then show ?thesis by (simp add: js_split_no_sep)
next
  assume a: "set u \<subseteq> {CHR '' ''}"
  then show ?thesis
    by (simp add: js_split_all_sep js_trim_spaces js_trim_Nil truthy_def)
qed

lemma filter_split_join:
  assumes "\<forall>u \<in> set users. CHR '' '' \<notin> set u \<or> set u \<subseteq> {CHR '' ''}"
  shows "filter (\<lambda>u. truthy (js_trim u)) (js_split CHR '' '' (js_join '' '' users)) =
         filter (\<lambda>u. truthy (js_trim u)) users"
  using assms
proof (induction users)
  case Nil
  show ?case by (simp add: js_trim_Nil truthy_def)
next
  case (Cons x xs)
  have x: "filter (\<lambda>u. truthy (js_trim u)) (js_split CHR '' '' x) =
           filter (\<lambda>u. truthy (js_trim u)) [x]"
    using Cons.prems by (intro filter_split_entry) simp
  show ?case
  proof (cases xs)
    case Nil
    with x show ?thesis by simp
  next
    case (Cons y ys)
    have "js_join '' '' (x # xs) = x @ CHR '' '' # js_join '' '' xs"
      using Cons by simp
    then have "filter (\<lambda>u. truthy (js_trim u)) (js_split CHR '' '' (js_join '' '' (x # xs))) =
          filter (\<lambda>u. truthy (js_trim u)) (js_split CHR '' '' x) @
          filter (\<lambda>u. truthy (js_trim u)) (js_split CHR '' '' (js_join '' '' xs))"
      by (simp add: js_split_append_sep)
    also have "\<dots> = filter (\<lambda>u. truthy (js_trim u)) [x] @ filter (\<lambda>u. truthy (js_trim u)) xs"
      using x Cons.IH Cons.prems by simp
    finally show ?thesis by simp
  qed
qed

lemma show_nat_digits: "set (show_nat n) \<subseteq> set decimal_digits"
proof (induction n rule: show_nat.induct)
  case (1 n)
  show ?case
  proof (cases "n < 10")
    case True
    then have "decimal_digits ! n \<in> set decimal_digits"
      by (intro nth_mem) (simp add: decimal_digits_def)
    with True show ?thesis by (subst show_nat.simps) simp
  next
    case False
    have "decimal_digits ! (n mod 10) \<in> set decimal_digits"
      by (intro nth_mem) (simp add: decimal_digits_def)
    with False 1 show ?thesis by (subst show_nat.simps) simp
  qed
qed

lemma show_int_no_newline: "newline \<notin> set (show_int i)"
proof -
  have "newline \<notin> set decimal_digits" by (simp add: decimal_digits_def newline_def)
  then have "newline \<notin> set (show_nat n)" for n using show_nat_digits[of n] by blast
  then show ?thesis by (simp add: show_int_def newline_def)
qed

lemma js_join_no_newline:
  "\<forall>u \<in> set us. newline \<notin> set u \<Longrightarrow> newline \<notin> set (js_join '' '' us)"
  by (induction "'' ''" us rule: js_join.induct) (simp_all add: newline_def)

lemma lines_of_unlines:
  "\<forall>l \<in> set ls. newline \<notin> set l \<Longrightarrow>
   js_split newline (unlines ls @ rest) = ls @ js_split newline rest"
proof (induction ls)
  case Nil
  show ?case by (simp add: unlines_def)
next
  case (Cons l ls)
  have "unlines (l # ls) @ rest = l @ newline # (unlines ls @ rest)"
    by (simp add: unlines_def)
  with Cons show ?case by (simp add: js_split_append_sep js_split_no_sep)
qed

text \<open>
  Claim C3, as stated. The claim gives \<open>allowUsers\<close> as the sequence
  \<open>["alice", "", " ", "bob"]\<close>. The renderer calls \<open>split\<close> on \<open>config.allowUsers\<close>, which
  an array does not have: on this input it throws a \<open>TypeError\<close> and renders no line.
\<close>

theorem generateSSHDConfig_array_counterexample:
  "generateSSHDConfig (sample_config\<lparr>allowUsers := JSArray [''alice'', [], '' '', ''bob'']\<rparr>) =
     Inl (TypeError ''config.allowUsers.split is not a function'')"
  by (simp add: generateSSHDConfig_def sample_config_def)

text \<open>
  Claim C3, amended. \<open>config.allowUsers\<close> is one string, the entries separated by single
  spaces. For entries without a line break, each either free of spaces or made of spaces
  only, joined by single spaces: the document is rendered, and its line 17 (index 16) is
  \<open>AllowUsers\<close> followed by the entries that do not trim to the empty string, in their
  order, joined by single spaces. For the entries \<open>alice\<close>, the empty string, one space
  and \<open>bob\<close>, that is the string \<open>alice\<close>, four spaces, \<open>bob\<close>, and the line is
  \<open>AllowUsers alice bob\<close>.
\<close>

theorem allowUsers_line:
  assumes ok: "\<forall>u \<in> set users. newline \<notin> set u \<and> (CHR '' '' \<notin> set u \<or> set u \<subseteq> {CHR '' ''})"
  shows "\<exists>doc. generateSSHDConfig (config\<lparr>allowUsers := JSString (js_join '' '' users)\<rparr>) = Inr doc \<and>
           lines_of doc ! 16 =
             ''AllowUsers '' @ js_join '' '' (filter (\<lambda>u. js_trim u \<noteq> []) users)"
proof -
  let ?kept = "filter (\<lambda>u. truthy (js_trim u)) users"
  let ?force = "if \<not> disableForceCwd config
                  then ''ForceCommand cmd /c '' @ [dquote] @ ''cd /d '' @
                       replace_slashes (defaultCwd config) @ '' && cmd'' @ [dquote]
                  else []"
  define pre where "pre =
    [''# SSH Server Configuration - Generated by runner-add-ssh'',
     ''# Port'',
     ''Port '' @ show_int (port config),
     [],
     ''# Authentication'',
     ''PubkeyAuthentication yes'',
     ''PasswordAuthentication no'',
     ''ChallengeResponseAuthentication no'',
     [],
     ''# Security'',
     ''PermitRootLogin no'',
     ''StrictModes yes'',
     ''MaxAuthTries 3'',
     ''MaxSessions 10'',
     [],
     ''# Allowed users'',
     ''AllowUsers '' @ js_join '' '' ?kept]"
  define post where "post =
    [[],
     ''# Windows-specific'',
     ''Subsystem sftp sftp-server.exe'',
     [],
     ''# Logging'',
     ''SyslogFacility AUTH'',
     ''LogLevel INFO'',
     [],
     ''# Default working directory'',
     ?force,
     [],
     ''# Performance'',
     ''UseDNS no'']"
  have arr: "filter (\<lambda>u. truthy (js_trim u)) (js_split CHR '' '' (js_join '' '' users)) = ?kept"
    using ok by (intro filter_split_join) blast
  have doc: "generateSSHDConfig (config\<lparr>allowUsers := JSString (js_join '' '' users)\<rparr>) =
               Inr (unlines pre @ unlines post)"
    by (simp add: generateSSHDConfig_def arr Let_def pre_def post_def unlines_def)
  have kept_nl: "newline \<notin> set (js_join '' '' ?kept)"
    using ok by (intro js_join_no_newline) simp
  have nl: "\<forall>l \<in> set pre. newline \<notin> set l"
    using kept_nl show_int_no_newline[of "port config"]
    by (simp add: pre_def) (simp add: newline_def)
  have "lines_of (unlines pre @ unlines post) = pre @ js_split newline (unlines post)"
    unfolding lines_of_def using nl by (rule lines_of_unlines)
  moreover have "length pre = 17" by (simp add: pre_def)
  ultimately have "lines_of (unlines pre @ unlines post) ! 16 = pre ! 16"
    by (simp add: nth_append)
  also have "pre ! 16 = ''AllowUsers '' @ js_join '' '' (filter (\<lambda>u. js_trim u \<noteq> []) users)"
    by (simp add: pre_def truthy_def)
  finally show ?thesis using doc by simp
qed

theorem allowUsers_line_witness:
  "js_join '' '' [''alice'', [], '' '', ''bob''] = ''alice    bob'' \<and>
   (\<exists>doc. generateSSHDConfig (sample_config\<lparr>allowUsers := JSString ''alice    bob''\<rparr>) = Inr doc \<and>
          lines_of doc ! 16 = ''AllowUsers alice bob'')"
proof -
  have ok: "\<forall>u \<in> set [''alice'', [], '' '', ''bob''].
              newline \<notin> set u \<and> (CHR '' '' \<notin> set u \<or> set u \<subseteq> {CHR '' ''})"
    by (simp add: newline_def)
  have j: "js_join '' '' [''alice'', [], '' '', ''bob''] = ''alice    bob''" by simp
  have f: "filter (\<lambda>u. js_trim u \<noteq> []) [''alice'', [], '' '', ''bob''] = [''alice'', ''bob'']"
    by (simp add: js_trim_def js_whitespace_def)
  from allowUsers_line[OF ok, of sample_config] show ?thesis
    unfolding j f by simp
qed

end
